theory Spec2Isabelle
  imports Main "HOL-Library.Word"
begin

unbundle bit_operations_syntax

section \<open>Data model of \<open>mesh.cpp\<close>\<close>

text \<open>
  Machine integers are words. A \<open>float\<close> is carried as its 32-bit pattern: the hash and the
  cache codec only ever copy the raw bytes of a float, and the one place that computes
  with floats (the division that normalises a lightmap UV) takes the float operations as
  parameters.
\<close>

type_synonym u8 = "8 word"
type_synonym u32 = "32 word"
type_synonym u64 = "64 word"
type_synonym f32 = "32 word"

datatype vec3 = Vec3 f32 f32 f32
datatype vec4 = Vec4 f32 f32 f32 f32

text \<open>
  Modelled from the spec: the declarations of \<open>Vertex\<close>, \<open>SubMesh\<close> and the members of
  \<open>Mesh\<close> live in \<open>mesh.h\<close>, which is not among the source files. The fields are the ones
  \<open>mesh.cpp\<close> reads and writes; the order of the six \<open>vec4\<close> fields of a vertex is the order
  of the vertex attributes declared in \<open>create_gpu_objects\<close>, so that \<open>sizeof(Vertex)\<close> is
  96 and a \<open>vec3\<close> takes 12 bytes. A \<open>std::string\<close> is its sequence of bytes.
\<close>

record Vertex =
  position :: vec4
  tex_coord :: vec4
  lightmap_tex_coord :: vec4
  normal :: vec4
  tangent :: vec4
  bitangent :: vec4

record SubMesh =
  name :: "u8 list"
  mat_idx :: u32
  index_count :: u32
  base_vertex :: u32
  base_index :: u32
  vertex_count :: u32
  max_extents :: vec3
  min_extents :: vec3

record Mesh =
  m_vertices :: "Vertex list"
  m_indices :: "u32 list"
  m_sub_meshes :: "SubMesh list"
  m_lightmap_width :: u32
  m_lightmap_height :: u32
  m_has_lightmap_uvs :: bool

definition LIGHTMAP_CACHE_MAGIC :: u32 where
  "LIGHTMAP_CACHE_MAGIC = 0x4C4D4150"

definition LIGHTMAP_CACHE_VERSION :: u32 where
  "LIGHTMAP_CACHE_VERSION = 1"

section \<open>Raw bytes of values (\<open>reinterpret_cast<const char*>\<close>, little-endian)\<close>

definition le32 :: "u32 \<Rightarrow> u8 list" where
  "le32 w = [ucast w, ucast (drop_bit 8 w), ucast (drop_bit 16 w), ucast (drop_bit 24 w)]"

definition of_le32 :: "u8 list \<Rightarrow> u32" where
  "of_le32 bs = (case bs of
       [b0, b1, b2, b3] \<Rightarrow>
         ucast b0 OR push_bit 8 (ucast b1) OR push_bit 16 (ucast b2) OR push_bit 24 (ucast b3)
     | _ \<Rightarrow> 0)"

definition le64 :: "u64 \<Rightarrow> u8 list" where
  "le64 w = [ucast w, ucast (drop_bit 8 w), ucast (drop_bit 16 w), ucast (drop_bit 24 w),
     ucast (drop_bit 32 w), ucast (drop_bit 40 w), ucast (drop_bit 48 w), ucast (drop_bit 56 w)]"

definition of_le64 :: "u8 list \<Rightarrow> u64" where
  "of_le64 bs = (case bs of
       [b0, b1, b2, b3, b4, b5, b6, b7] \<Rightarrow>
         ucast b0 OR push_bit 8 (ucast b1) OR push_bit 16 (ucast b2) OR push_bit 24 (ucast b3)
         OR push_bit 32 (ucast b4) OR push_bit 40 (ucast b5) OR push_bit 48 (ucast b6)
         OR push_bit 56 (ucast b7)
     | _ \<Rightarrow> 0)"

definition slice :: "nat \<Rightarrow> nat \<Rightarrow> 'a list \<Rightarrow> 'a list" where
  "slice off n bs = take n (drop off bs)"

fun vec3_bytes :: "vec3 \<Rightarrow> u8 list" where
  "vec3_bytes (Vec3 a b c) = le32 a @ le32 b @ le32 c"

definition vec3_of_bytes :: "u8 list \<Rightarrow> vec3" where
  "vec3_of_bytes bs = Vec3 (of_le32 (slice 0 4 bs)) (of_le32 (slice 4 4 bs)) (of_le32 (slice 8 4 bs))"

fun vec4_bytes :: "vec4 \<Rightarrow> u8 list" where
  "vec4_bytes (Vec4 a b c d) = le32 a @ le32 b @ le32 c @ le32 d"

definition vec4_of_bytes :: "u8 list \<Rightarrow> vec4" where
  "vec4_of_bytes bs =
     Vec4 (of_le32 (slice 0 4 bs)) (of_le32 (slice 4 4 bs)) (of_le32 (slice 8 4 bs))
          (of_le32 (slice 12 4 bs))"

definition sizeof_Vertex :: nat where
  "sizeof_Vertex = 96"

definition Vertex_bytes :: "Vertex \<Rightarrow> u8 list" where
  "Vertex_bytes v =
     vec4_bytes (position v) @ vec4_bytes (tex_coord v) @ vec4_bytes (lightmap_tex_coord v) @
     vec4_bytes (normal v) @ vec4_bytes (tangent v) @ vec4_bytes (bitangent v)"

definition Vertex_of_bytes :: "u8 list \<Rightarrow> Vertex" where
  "Vertex_of_bytes bs =
     \<lparr> position = vec4_of_bytes (slice 0 16 bs),
       tex_coord = vec4_of_bytes (slice 16 16 bs),
       lightmap_tex_coord = vec4_of_bytes (slice 32 16 bs),
       normal = vec4_of_bytes (slice 48 16 bs),
       tangent = vec4_of_bytes (slice 64 16 bs),
       bitangent = vec4_of_bytes (slice 80 16 bs) \<rparr>"

section \<open>Binary file streams\<close>

text \<open>
  An input stream is the bytes not yet read. \<open>istream::read\<close> with a count that the
  remaining bytes cannot satisfy sets the fail bit; every later read on the stream then
  does nothing, and the function returns \<open>false\<close> at its next \<open>file.fail()\<close> test if it
  gets there. A reader returns \<open>None\<close> from the first failed read on: readers give what
  the function returns when it returns. The two ways in which \<open>load_lightmap_cache\<close> does
  not return are added in \<open>load_lightmap_cache_run\<close> below.
  The count is a signed \<open>streamsize\<close>; a negative count transfers nothing and, being
  different from the number of bytes transferred, sets the fail bit as well.
\<close>

type_synonym 'a reader = "u8 list \<Rightarrow> ('a \<times> u8 list) option"

definition read_raw :: "int \<Rightarrow> (u8 list) reader" where
  "read_raw n bs =
     (if n < 0 \<or> int (length bs) < n then None
      else Some (take (nat n) bs, drop (nat n) bs))"

definition rreturn :: "'a \<Rightarrow> 'a reader" where
  "rreturn a bs = Some (a, bs)"

definition rbind :: "'a reader \<Rightarrow> ('a \<Rightarrow> 'b reader) \<Rightarrow> 'b reader" where
  "rbind p f bs = (case p bs of None \<Rightarrow> None | Some (a, rest) \<Rightarrow> f a rest)"

definition read_u32 :: "u32 reader" where
  "read_u32 = rbind (read_raw 4) (\<lambda>b. rreturn (of_le32 b))"

definition read_u64 :: "u64 reader" where
  "read_u64 = rbind (read_raw 8) (\<lambda>b. rreturn (of_le64 b))"

definition read_vec3 :: "vec3 reader" where
  "read_vec3 = rbind (read_raw 12) (\<lambda>b. rreturn (vec3_of_bytes b))"

text \<open>
  \<open>std::vector<T> xs(count); file.read(xs.data(), static_cast<int32_t>(count) * sizeof(T))\<close>:
  one read of the whole array; element \<open>i\<close> is the \<open>sz\<close> bytes at offset \<open>i * sz\<close>.
\<close>

definition read_array :: "u32 \<Rightarrow> nat \<Rightarrow> (u8 list \<Rightarrow> 'a) \<Rightarrow> ('a list) reader" where
  "read_array count sz dec =
     rbind (read_raw (sint count * int sz))
       (\<lambda>b. rreturn (map (\<lambda>i. dec (slice (i * sz) sz b)) [0..<unat count]))"

primrec read_n :: "nat \<Rightarrow> 'a reader \<Rightarrow> ('a list) reader" where
  "read_n 0 p = rreturn []"
| "read_n (Suc n) p = rbind p (\<lambda>x. rbind (read_n n p) (\<lambda>xs. rreturn (x # xs)))"

text \<open>
  An output stream is the bytes written so far and its fail bit. \<open>ostream::write\<close> does
  nothing on a failed stream, and fails on a negative count.
\<close>

record ofstream =
  written :: "u8 list"
  failbit :: bool

definition write_raw :: "int \<Rightarrow> u8 list \<Rightarrow> ofstream \<Rightarrow> ofstream" where
  "write_raw n data s =
     (if failbit s then s
      else if n < 0 then s\<lparr>failbit := True\<rparr>
      else s\<lparr>written := written s @ take (nat n) data\<rparr>)"

definition write_u32 :: "u32 \<Rightarrow> ofstream \<Rightarrow> ofstream" where
  "write_u32 w = write_raw 4 (le32 w)"

definition write_u64 :: "u64 \<Rightarrow> ofstream \<Rightarrow> ofstream" where
  "write_u64 w = write_raw 8 (le64 w)"

definition write_vec3 :: "vec3 \<Rightarrow> ofstream \<Rightarrow> ofstream" where
  "write_vec3 v = write_raw 12 (vec3_bytes v)"

section \<open>The lightmap cache codec\<close>

record cache_header =
  h_magic :: u32
  h_version :: u32
  h_stored_hash :: u64
  h_vertex_count :: u32
  h_index_count :: u32
  h_submesh_count :: u32
  h_lightmap_width :: u32
  h_lightmap_height :: u32

definition read_header :: "cache_header reader" where
  "read_header =
     rbind read_u32 (\<lambda>magic.
     rbind read_u32 (\<lambda>version.
     rbind read_u64 (\<lambda>stored_hash.
     rbind read_u32 (\<lambda>vertex_count.
     rbind read_u32 (\<lambda>index_count.
     rbind read_u32 (\<lambda>submesh_count.
     rbind read_u32 (\<lambda>lightmap_width.
     rbind read_u32 (\<lambda>lightmap_height.
     rreturn \<lparr> h_magic = magic, h_version = version, h_stored_hash = stored_hash,
               h_vertex_count = vertex_count, h_index_count = index_count,
               h_submesh_count = submesh_count, h_lightmap_width = lightmap_width,
               h_lightmap_height = lightmap_height \<rparr>))))))))"

definition read_submesh :: "SubMesh reader" where
  "read_submesh =
     rbind read_u32 (\<lambda>name_len.
     rbind (read_raw (uint name_len)) (\<lambda>name'.
     rbind read_u32 (\<lambda>mat_idx'.
     rbind read_u32 (\<lambda>index_count'.
     rbind read_u32 (\<lambda>base_vertex'.
     rbind read_u32 (\<lambda>base_index'.
     rbind read_u32 (\<lambda>vertex_count'.
     rbind read_vec3 (\<lambda>max_extents'.
     rbind read_vec3 (\<lambda>min_extents'.
     rreturn \<lparr> name = name', mat_idx = mat_idx', index_count = index_count',
               base_vertex = base_vertex', base_index = base_index',
               vertex_count = vertex_count', max_extents = max_extents',
               min_extents = min_extents' \<rparr>)))))))))"

definition read_data :: "cache_header \<Rightarrow> (Vertex list \<times> u32 list \<times> SubMesh list) reader" where
  "read_data hdr =
     rbind (read_array (h_vertex_count hdr) sizeof_Vertex Vertex_of_bytes) (\<lambda>vertices.
     rbind (read_array (h_index_count hdr) 4 of_le32) (\<lambda>indices.
     rbind (read_n (unat (h_submesh_count hdr)) read_submesh) (\<lambda>submeshes.
     rreturn (vertices, indices, submeshes))))"

text \<open>
  The six ways \<open>load_lightmap_cache\<close> returns \<open>false\<close>: the file does not open, and the five
  warnings it logs.
\<close>

datatype cache_error =
    NotOpen
  | ReadErrorHeader
  | InvalidMagic
  | VersionMismatch
  | HashMismatch
  | ReadErrorData

text \<open>
  The part of \<open>load_lightmap_cache\<close> that works on local variables: read the header, test
  \<open>file.fail()\<close>, validate magic, version and hash in this order, read the data, test
  \<open>file.fail()\<close>. The result also carries the bytes left unread. This is the value the
  function returns when it returns; its allocations and what it does with \<open>name_len\<close> after
  a failed read are modelled in \<open>load_lightmap_cache_run\<close> below.
\<close>

definition decode_cache ::
  "u8 list \<Rightarrow> u64 \<Rightarrow> cache_error + (cache_header \<times> (Vertex list \<times> u32 list \<times> SubMesh list) \<times> u8 list)"
where
  "decode_cache bs expected_hash =
     (case read_header bs of
        None \<Rightarrow> Inl ReadErrorHeader
      | Some (hdr, rest) \<Rightarrow>
          if h_magic hdr \<noteq> LIGHTMAP_CACHE_MAGIC then Inl InvalidMagic
          else if h_version hdr \<noteq> LIGHTMAP_CACHE_VERSION then Inl VersionMismatch
          else if h_stored_hash hdr \<noteq> expected_hash then Inl HashMismatch
          else (case read_data hdr rest of
                  None \<Rightarrow> Inl ReadErrorData
                | Some (d, rest') \<Rightarrow> Inr (hdr, d, rest')))"

text \<open>
  \<open>Mesh::load_lightmap_cache\<close>, as far as it returns. The file is \<open>None\<close> when it cannot be
  opened. The result is the returned boolean (\<open>Inr ()\<close> for \<open>true\<close>, \<open>Inl\<close> with the reason
  for \<open>false\<close>) and the mesh afterwards.
\<close>

definition load_lightmap_cache ::
  "Mesh \<Rightarrow> u8 list option \<Rightarrow> u64 \<Rightarrow> (cache_error + unit) \<times> Mesh"
where
  "load_lightmap_cache m file expected_hash =
     (case file of
        None \<Rightarrow> (Inl NotOpen, m)
      | Some bs \<Rightarrow>
          (case decode_cache bs expected_hash of
             Inl e \<Rightarrow> (Inl e, m)
           | Inr (hdr, (vertices, indices, submeshes), rest) \<Rightarrow>
               (Inr (),
                m\<lparr> m_vertices := vertices,
                   m_indices := indices,
                   m_sub_meshes := submeshes,
                   m_lightmap_width := h_lightmap_width hdr,
                   m_lightmap_height := h_lightmap_height hdr,
                   m_has_lightmap_uvs := True \<rparr>)))"

definition write_submesh :: "SubMesh \<Rightarrow> ofstream \<Rightarrow> ofstream" where
  "write_submesh sm file =
     (let name_len = (of_nat (length (name sm)) :: u32);
          file = write_u32 name_len file;
          file = write_raw (uint name_len) (name sm) file;
          file = write_u32 (mat_idx sm) file;
          file = write_u32 (index_count sm) file;
          file = write_u32 (base_vertex sm) file;
          file = write_u32 (base_index sm) file;
          file = write_u32 (vertex_count sm) file;
          file = write_vec3 (max_extents sm) file;
          file = write_vec3 (min_extents sm) file
      in file)"

definition write_cache :: "Mesh \<Rightarrow> u64 \<Rightarrow> ofstream \<Rightarrow> ofstream" where
  "write_cache m mesh_hash file =
     (let vertex_count = (of_nat (length (m_vertices m)) :: u32);
          index_count = (of_nat (length (m_indices m)) :: u32);
          submesh_count = (of_nat (length (m_sub_meshes m)) :: u32);
          file = write_u32 LIGHTMAP_CACHE_MAGIC file;
          file = write_u32 LIGHTMAP_CACHE_VERSION file;
          file = write_u64 mesh_hash file;
          file = write_u32 vertex_count file;
          file = write_u32 index_count file;
          file = write_u32 submesh_count file;
          file = write_u32 (m_lightmap_width m) file;
          file = write_u32 (m_lightmap_height m) file;
          file = write_raw (sint vertex_count * int sizeof_Vertex)
                   (concat (map Vertex_bytes (m_vertices m))) file;
          file = write_raw (sint index_count * 4) (concat (map le32 (m_indices m))) file;
          file = fold write_submesh (m_sub_meshes m) file
      in file)"

text \<open>
  \<open>Mesh::save_lightmap_cache\<close>. \<open>can_open\<close> says whether the output file opens. The result
  is the returned boolean and the content of the file it created (\<open>None\<close> when it did not
  open).
\<close>

definition save_lightmap_cache :: "Mesh \<Rightarrow> bool \<Rightarrow> u64 \<Rightarrow> bool \<times> u8 list option" where
  "save_lightmap_cache m can_open mesh_hash =
     (if \<not> can_open then (False, None)
      else
        (let file = write_cache m mesh_hash \<lparr> written = [], failbit = False \<rparr>
         in if failbit file then (False, Some (written file))
            else (True, Some (written file))))"

section \<open>Exits of \<open>load_lightmap_cache\<close> other than a return\<close>

text \<open>
  Between the validation of the header and the final \<open>file.fail()\<close> test the function can
  leave in two more ways. It allocates \<open>std::vector<Vertex> vertices(vertex_count)\<close>, the
  index vector, the submesh vector and one \<open>std::string name(name_len, '\0')\<close> per submesh
  from counts it has read from the file, each before it reads the data; an allocation the
  machine refuses throws \<open>std::bad_alloc\<close>, which nothing catches. And \<open>name_len\<close> is a
  local without initialiser: when the read that should store it fails (on a short or an
  already failed stream), the string is built from an indeterminate value, which is
  undefined behaviour.

  The machine is a parameter: which requests it grants. A request for no element is
  always granted (an empty vector or string allocates nothing), and a request of a given
  kind and size is answered the same way throughout one call.
\<close>

datatype alloc_request =
    Alloc_Vertices nat
  | Alloc_Indices nat
  | Alloc_SubMeshes nat
  | Alloc_String nat

type_synonym allocator = "alloc_request \<Rightarrow> bool"

fun request_size :: "alloc_request \<Rightarrow> nat" where
  "request_size (Alloc_Vertices n) = n"
| "request_size (Alloc_Indices n) = n"
| "request_size (Alloc_SubMeshes n) = n"
| "request_size (Alloc_String n) = n"

definition grants :: "allocator \<Rightarrow> alloc_request \<Rightarrow> bool" where
  "grants a r = (request_size r = 0 \<or> a r)"

datatype 'a outcome = Returns 'a | Throws_bad_alloc | Undefined_behaviour

text \<open>
  The state of the stream between two reads: the bytes left, or \<open>None\<close> once a read has
  failed. A read on a failed stream does nothing.
\<close>

definition on_stream :: "'a reader \<Rightarrow> u8 list option \<Rightarrow> ('a \<times> u8 list) option" where
  "on_stream p s = (case s of None \<Rightarrow> None | Some bs \<Rightarrow> p bs)"

text \<open>The reads of one submesh record after \<open>name_len\<close>: the name and the seven fields.\<close>

definition read_submesh_fields :: "u32 \<Rightarrow> SubMesh reader" where
  "read_submesh_fields name_len =
     rbind (read_raw (uint name_len)) (\<lambda>name'.
     rbind read_u32 (\<lambda>mat_idx'.
     rbind read_u32 (\<lambda>index_count'.
     rbind read_u32 (\<lambda>base_vertex'.
     rbind read_u32 (\<lambda>base_index'.
     rbind read_u32 (\<lambda>vertex_count'.
     rbind read_vec3 (\<lambda>max_extents'.
     rbind read_vec3 (\<lambda>min_extents'.
     rreturn \<lparr> name = name', mat_idx = mat_idx', index_count = index_count',
               base_vertex = base_vertex', base_index = base_index',
               vertex_count = vertex_count', max_extents = max_extents',
               min_extents = min_extents' \<rparr>))))))))"

text \<open>
  The submesh loop with \<open>n\<close> iterations to go. Each iteration reads \<open>name_len\<close>, builds the
  string, and reads the rest of the record; it goes on to the next iteration whether or
  not the stream has failed. The result is the submeshes read and the bytes left, or
  \<open>None\<close> when the stream has failed.
\<close>

primrec read_submeshes_run ::
  "allocator \<Rightarrow> nat \<Rightarrow> u8 list option \<Rightarrow> SubMesh list \<Rightarrow> ((SubMesh list \<times> u8 list) option) outcome"
where
  "read_submeshes_run a 0 s submeshes =
     Returns (case s of None \<Rightarrow> None | Some rest \<Rightarrow> Some (submeshes, rest))"
| "read_submeshes_run a (Suc n) s submeshes =
     (case on_stream read_u32 s of
        None \<Rightarrow> Undefined_behaviour
      | Some (name_len, rest) \<Rightarrow>
          if \<not> grants a (Alloc_String (unat name_len)) then Throws_bad_alloc
          else
            (case read_submesh_fields name_len rest of
               None \<Rightarrow> read_submeshes_run a n None submeshes
             | Some (sm, rest') \<Rightarrow> read_submeshes_run a n (Some rest') (submeshes @ [sm])))"

text \<open>
  The data part of \<open>load_lightmap_cache\<close>: allocate and read the vertices, allocate and read
  the indices, allocate the submeshes and run the loop. The result is what the final
  \<open>file.fail()\<close> test sees: \<open>None\<close> for a failed stream.
\<close>

definition read_data_run ::
  "allocator \<Rightarrow> cache_header \<Rightarrow> u8 list \<Rightarrow>
     (((Vertex list \<times> u32 list \<times> SubMesh list) \<times> u8 list) option) outcome"
where
  "read_data_run a hdr rest =
     (if \<not> grants a (Alloc_Vertices (unat (h_vertex_count hdr))) then Throws_bad_alloc
      else
        (let r1 = read_array (h_vertex_count hdr) sizeof_Vertex Vertex_of_bytes rest
         in if \<not> grants a (Alloc_Indices (unat (h_index_count hdr))) then Throws_bad_alloc
            else
              (let r2 = on_stream (read_array (h_index_count hdr) 4 of_le32) (map_option snd r1)
               in if \<not> grants a (Alloc_SubMeshes (unat (h_submesh_count hdr)))
                  then Throws_bad_alloc
                  else
                    (case read_submeshes_run a (unat (h_submesh_count hdr))
                            (map_option snd r2) [] of
                       Throws_bad_alloc \<Rightarrow> Throws_bad_alloc
                     | Undefined_behaviour \<Rightarrow> Undefined_behaviour
                     | Returns None \<Rightarrow> Returns None
                     | Returns (Some (submeshes, rest')) \<Rightarrow>
                         (case (r1, r2) of
                            (Some (vertices, _), Some (indices, _)) \<Rightarrow>
                              Returns (Some ((vertices, indices, submeshes), rest'))
                          | _ \<Rightarrow> Returns None)))))"

text \<open>
  \<open>Mesh::load_lightmap_cache\<close> with all its exits. Up to the validation of the header it is
  \<open>load_lightmap_cache\<close>: the header is read into locals that are only used after the
  \<open>file.fail()\<close> test.
\<close>

definition load_lightmap_cache_run ::
  "allocator \<Rightarrow> Mesh \<Rightarrow> u8 list option \<Rightarrow> u64 \<Rightarrow> ((cache_error + unit) \<times> Mesh) outcome"
where
  "load_lightmap_cache_run a m file expected_hash =
     (case file of
        None \<Rightarrow> Returns (Inl NotOpen, m)
      | Some bs \<Rightarrow>
          (case read_header bs of
             None \<Rightarrow> Returns (Inl ReadErrorHeader, m)
           | Some (hdr, rest) \<Rightarrow>
               if h_magic hdr \<noteq> LIGHTMAP_CACHE_MAGIC then Returns (Inl InvalidMagic, m)
               else if h_version hdr \<noteq> LIGHTMAP_CACHE_VERSION
                 then Returns (Inl VersionMismatch, m)
               else if h_stored_hash hdr \<noteq> expected_hash then Returns (Inl HashMismatch, m)
               else
                 (case read_data_run a hdr rest of
                    Throws_bad_alloc \<Rightarrow> Throws_bad_alloc
                  | Undefined_behaviour \<Rightarrow> Undefined_behaviour
                  | Returns None \<Rightarrow> Returns (Inl ReadErrorData, m)
                  | Returns (Some ((vertices, indices, submeshes), rest')) \<Rightarrow>
                      Returns (Inr (),
                        m\<lparr> m_vertices := vertices,
                           m_indices := indices,
                           m_sub_meshes := submeshes,
                           m_lightmap_width := h_lightmap_width hdr,
                           m_lightmap_height := h_lightmap_height hdr,
                           m_has_lightmap_uvs := True \<rparr>))))"

section \<open>The geometry hash\<close>

definition FNV_PRIME :: u64 where
  "FNV_PRIME = 1099511628211"

definition FNV_OFFSET :: u64 where
  "FNV_OFFSET = 14695981039346656037"

text \<open>The inner loop of the hasher: \<open>hash ^= data[i]; hash *= FNV_PRIME\<close> over a byte range.\<close>

definition hash_bytes :: "u8 list \<Rightarrow> u64 \<Rightarrow> u64" where
  "hash_bytes data hash = foldl (\<lambda>h b. (h XOR ucast b) * FNV_PRIME) hash data"

text \<open>
  \<open>Mesh::compute_mesh_hash\<close>: three loops in sequence over the vertices (the 16 bytes of
  \<open>position\<close>), the indices (their 4 bytes) and the submeshes (\<open>index_count\<close> and
  \<open>base_index\<close>, each folded in as one 32-bit value).
\<close>

definition compute_mesh_hash :: "Mesh \<Rightarrow> u64" where
  "compute_mesh_hash m =
     (let hash = FNV_OFFSET;
          hash = foldl (\<lambda>h v. hash_bytes (vec4_bytes (position v)) h) hash (m_vertices m);
          hash = foldl (\<lambda>h idx. hash_bytes (le32 idx) h) hash (m_indices m);
          hash = foldl (\<lambda>h sm.
                   (((h XOR ucast (index_count sm)) * FNV_PRIME) XOR ucast (base_index sm))
                     * FNV_PRIME) hash (m_sub_meshes m)
      in hash)"

text \<open>
  The hash as the specification words it: FNV-1a with the two constants, folded over one
  sequence of values, namely the bytes of every position, then the bytes of every index,
  then \<open>index_count\<close> and \<open>base_index\<close> of every submesh.
\<close>

definition spec_fnv1a :: "u64 list \<Rightarrow> u64" where
  "spec_fnv1a xs = foldl (\<lambda>h x. (h XOR x) * 1099511628211) 14695981039346656037 xs"

definition spec_hash_input :: "Vertex list \<Rightarrow> u32 list \<Rightarrow> SubMesh list \<Rightarrow> u64 list" where
  "spec_hash_input vs idxs sms =
     map ucast (concat (map (\<lambda>v. vec4_bytes (position v)) vs)) @
     map ucast (concat (map le32 idxs)) @
     concat (map (\<lambda>sm. [ucast (index_count sm), ucast (base_index sm)]) sms)"

section \<open>The atlas consolidator\<close>

text \<open>
  What the external packer (xatlas) answers in one run: the result of \<open>AddMesh\<close> and the
  atlas after \<open>Generate\<close>. An array of the packer is a list together with the count the
  packer reports for it.
\<close>

datatype AddMeshError = Success | Error | IndexOutOfRange | InvalidFaceVertexCount | InvalidIndexCount

record xatlas_Vertex =
  uv :: "f32 \<times> f32"
  xref :: u32

record xatlas_Mesh =
  vertexArray :: "xatlas_Vertex list"
  indexArray :: "u32 list"
  vertexCount :: u32
  indexCount :: u32

record xatlas_Atlas =
  meshes :: "xatlas_Mesh list"
  meshCount :: u32
  width :: u32
  height :: u32

record xatlas_run =
  add_mesh_error :: AddMeshError
  atlas :: xatlas_Atlas

text \<open>
  The float operations of the consolidator, as parameters: \<open>fdiv\<close> is the division of two
  floats and \<open>to_float\<close> the conversion \<open>float(uint32_t)\<close>. The float \<open>0.0f\<close> is the pattern 0.
\<close>

record float_ops =
  fdiv :: "f32 \<Rightarrow> f32 \<Rightarrow> f32"
  to_float :: "u32 \<Rightarrow> f32"

datatype gen_error = NoGeometry | AddMeshFailed AddMeshError | ZeroDimensions | UnexpectedMeshCount

text \<open>
  The first \<open>count\<close> elements of a packer array; \<open>None\<close> when the array is shorter than the
  count, where the loop would read past its end.
\<close>

definition fetch :: "'a list \<Rightarrow> u32 \<Rightarrow> 'a list option" where
  "fetch arr count = (if unat count \<le> length arr then Some (take (unat count) arr) else None)"

text \<open>
  The body of the vertex loop: \<open>m_vertices[xvert.xref]\<close> with the lightmap UV overwritten.
  \<open>None\<close> when \<open>xref\<close> is not an index of \<open>m_vertices\<close> (the code does not check it).
\<close>

definition new_vert :: "float_ops \<Rightarrow> xatlas_Atlas \<Rightarrow> Vertex list \<Rightarrow> xatlas_Vertex \<Rightarrow> Vertex option" where
  "new_vert ops a vertices xvert =
     (if unat (xref xvert) < length vertices then
        Some ((vertices ! unat (xref xvert))
          \<lparr> lightmap_tex_coord :=
              Vec4 (fdiv ops (fst (uv xvert)) (to_float ops (width a)))
                   (fdiv ops (snd (uv xvert)) (to_float ops (height a))) 0 0 \<rparr>)
      else None)"

primrec build_vertices :: "('a \<Rightarrow> 'b option) \<Rightarrow> 'a list \<Rightarrow> 'b list option" where
  "build_vertices f [] = Some []"
| "build_vertices f (x # xs) =
     (case f x of
        None \<Rightarrow> None
      | Some y \<Rightarrow> (case build_vertices f xs of None \<Rightarrow> None | Some ys \<Rightarrow> Some (y # ys)))"

text \<open>The submesh loop; \<open>current_index\<close> is a \<open>uint32_t\<close> and wraps.\<close>

primrec rebase_submeshes :: "u32 \<Rightarrow> u32 \<Rightarrow> SubMesh list \<Rightarrow> SubMesh list" where
  "rebase_submeshes current_index new_count [] = []"
| "rebase_submeshes current_index new_count (submesh # rest) =
     submesh\<lparr> base_index := current_index, base_vertex := 0, vertex_count := new_count \<rparr>
       # rebase_submeshes (current_index + index_count submesh) new_count rest"

text \<open>
  \<open>Mesh::generate_lightmap_uvs\<close>, given the packer's answer. The result is \<open>None\<close> where the
  code reads outside an array (undefined behaviour); otherwise the returned boolean
  (\<open>Inr ()\<close> for \<open>true\<close>, \<open>Inl\<close> with the logged reason for \<open>false\<close>) and the mesh afterwards.
\<close>

definition generate_lightmap_uvs ::
  "float_ops \<Rightarrow> xatlas_run \<Rightarrow> Mesh \<Rightarrow> ((gen_error + unit) \<times> Mesh) option"
where
  "generate_lightmap_uvs ops xa m =
     (if m_vertices m = [] \<or> m_indices m = [] then Some (Inl NoGeometry, m)
      else if add_mesh_error xa \<noteq> Success then Some (Inl (AddMeshFailed (add_mesh_error xa)), m)
      else if width (atlas xa) = 0 \<or> height (atlas xa) = 0 then Some (Inl ZeroDimensions, m)
      else
        (let m = m\<lparr> m_lightmap_width := width (atlas xa),
                     m_lightmap_height := height (atlas xa) \<rparr>
         in if meshCount (atlas xa) \<noteq> 1 then Some (Inl UnexpectedMeshCount, m)
            else
              (case meshes (atlas xa) of
                 [] \<Rightarrow> None
               | xmesh # _ \<Rightarrow>
                   (case fetch (vertexArray xmesh) (vertexCount xmesh) of
                      None \<Rightarrow> None
                    | Some xverts \<Rightarrow>
                        (case build_vertices (new_vert ops (atlas xa) (m_vertices m)) xverts of
                           None \<Rightarrow> None
                         | Some new_vertices \<Rightarrow>
                             (case fetch (indexArray xmesh) (indexCount xmesh) of
                                None \<Rightarrow> None
                              | Some new_indices \<Rightarrow>
                                  Some (Inr (),
                                    m\<lparr> m_sub_meshes :=
                                         rebase_submeshes 0 (of_nat (length new_vertices))
                                           (m_sub_meshes m),
                                       m_vertices := new_vertices,
                                       m_indices := new_indices,
                                       m_has_lightmap_uvs := True \<rparr>)))))))"

section \<open>The constructor\<close>



section \<open>The file layout, and when a mesh fits it\<close>

text \<open>
  The layout of a cache file as the specification gives it: the header fields in order,
  the vertex records, the indices, and the submesh records with their length-prefixed
  names.
\<close>

definition spec_header_layout :: "cache_header \<Rightarrow> u8 list" where
  "spec_header_layout hdr =
     le32 (h_magic hdr) @ le32 (h_version hdr) @ le64 (h_stored_hash hdr) @
     le32 (h_vertex_count hdr) @ le32 (h_index_count hdr) @ le32 (h_submesh_count hdr) @
     le32 (h_lightmap_width hdr) @ le32 (h_lightmap_height hdr)"

definition spec_submesh_layout :: "SubMesh \<Rightarrow> u8 list" where
  "spec_submesh_layout sm =
     le32 (of_nat (length (name sm))) @ name sm @ le32 (mat_idx sm) @ le32 (index_count sm) @
     le32 (base_vertex sm) @ le32 (base_index sm) @ le32 (vertex_count sm) @
     vec3_bytes (max_extents sm) @ vec3_bytes (min_extents sm)"

definition cache_header_of :: "Mesh \<Rightarrow> u64 \<Rightarrow> cache_header" where
  "cache_header_of m mesh_hash =
     \<lparr> h_magic = LIGHTMAP_CACHE_MAGIC, h_version = LIGHTMAP_CACHE_VERSION,
       h_stored_hash = mesh_hash,
       h_vertex_count = of_nat (length (m_vertices m)),
       h_index_count = of_nat (length (m_indices m)),
       h_submesh_count = of_nat (length (m_sub_meshes m)),
       h_lightmap_width = m_lightmap_width m, h_lightmap_height = m_lightmap_height m \<rparr>"

definition spec_cache_layout :: "Mesh \<Rightarrow> u64 \<Rightarrow> u8 list" where
  "spec_cache_layout m mesh_hash =
     spec_header_layout (cache_header_of m mesh_hash) @
     concat (map Vertex_bytes (m_vertices m)) @
     concat (map le32 (m_indices m)) @
     concat (map spec_submesh_layout (m_sub_meshes m))"

text \<open>
  The counts a cache file can carry: the code casts the vertex and index counts to
  \<open>int32_t\<close> to size their arrays, and stores the submesh count and the length of a
  name in 32 bits.
\<close>

definition cache_representable :: "Mesh \<Rightarrow> bool" where
  "cache_representable m =
     (length (m_vertices m) < 2 ^ 31 \<and> length (m_indices m) < 2 ^ 31 \<and>
      length (m_sub_meshes m) < 2 ^ 32 \<and>
      list_all (\<lambda>sm. length (name sm) < 2 ^ 32) (m_sub_meshes m))"

text \<open>
  What every reader built from \<open>read_raw\<close> does: it consumes a prefix of its input, does
  the same whatever follows that prefix, and fails on every proper prefix of it.
\<close>

definition reader_ok :: "'a reader \<Rightarrow> bool" where
  "reader_ok p =
     (\<forall>bs a rest. p bs = Some (a, rest) \<longrightarrow>
        (\<exists>used. bs = used @ rest \<and>
           (\<forall>extra. p (used @ extra) = Some (a, extra)) \<and>
           (\<forall>k < length used. p (take k used) = None)))"

section \<open>Concrete inputs\<close>

text \<open>A triangle: three vertices, three indices, one submesh (scenario A of the specification).\<close>

definition vtx :: "f32 \<Rightarrow> f32 \<Rightarrow> Vertex" where
  "vtx p n =
     \<lparr> position = Vec4 p p p 0, tex_coord = Vec4 n 0 0 0, lightmap_tex_coord = Vec4 0 0 0 0,
       normal = Vec4 n n n 0, tangent = Vec4 0 0 0 0, bitangent = Vec4 0 0 0 0 \<rparr>"

definition tri_submesh :: SubMesh where
  "tri_submesh =
     \<lparr> name = [0x74, 0x72, 0x69], mat_idx = 0, index_count = 3, base_vertex = 0, base_index = 0,
       vertex_count = 3, max_extents = Vec3 3 3 3, min_extents = Vec3 1 1 1 \<rparr>"

definition tri_mesh :: Mesh where
  "tri_mesh =
     \<lparr> m_vertices = [vtx 1 7, vtx 2 7, vtx 3 7], m_indices = [0, 1, 2],
       m_sub_meshes = [tri_submesh], m_lightmap_width = 0, m_lightmap_height = 0,
       m_has_lightmap_uvs = False \<rparr>"

text \<open>The same triangle with other normals and primary UVs.\<close>

definition tri_mesh_other_normals :: Mesh where
  "tri_mesh_other_normals = tri_mesh\<lparr> m_vertices := [vtx 1 8, vtx 2 9, vtx 3 10] \<rparr>"

text \<open>A mesh with no geometry.\<close>

definition empty_mesh :: Mesh where
  "empty_mesh =
     \<lparr> m_vertices = [], m_indices = [], m_sub_meshes = [], m_lightmap_width = 0,
       m_lightmap_height = 0, m_has_lightmap_uvs = False \<rparr>"

text \<open>
  A quad and a triangle over four vertices, in two submeshes. Packer answers for the
  triangle and for this mesh in which vertex 0 lies on a seam and comes out twice
  (scenario E).
\<close>

definition two_submeshes :: Mesh where
  "two_submeshes =
     \<lparr> m_vertices = [vtx 1 7, vtx 2 7, vtx 3 7, vtx 4 7],
       m_indices = [0, 1, 2, 0, 2, 3, 0, 1, 3],
       m_sub_meshes =
         [tri_submesh\<lparr> index_count := 6, vertex_count := 4 \<rparr>,
          tri_submesh\<lparr> base_index := 6, base_vertex := 0 \<rparr>],
       m_lightmap_width = 0, m_lightmap_height = 0, m_has_lightmap_uvs = False \<rparr>"

definition xv :: "f32 \<Rightarrow> f32 \<Rightarrow> u32 \<Rightarrow> xatlas_Vertex" where
  "xv a b r = \<lparr> uv = (a, b), xref = r \<rparr>"

definition seam_run :: xatlas_run where
  "seam_run =
     \<lparr> add_mesh_error = Success,
       atlas =
         \<lparr> meshes =
             [\<lparr> vertexArray = [xv 10 10 0, xv 20 10 1, xv 20 20 2, xv 40 40 0],
                indexArray = [3, 1, 2], vertexCount = 4, indexCount = 3 \<rparr>],
           meshCount = 1, width = 64, height = 32 \<rparr> \<rparr>"

definition two_submeshes_run :: xatlas_run where
  "two_submeshes_run =
     \<lparr> add_mesh_error = Success,
       atlas =
         \<lparr> meshes =
             [\<lparr> vertexArray = [xv 10 10 0, xv 20 10 1, xv 20 20 2, xv 10 20 3, xv 40 40 0],
                indexArray = [0, 1, 2, 0, 2, 3, 4, 1, 3], vertexCount = 5, indexCount = 9 \<rparr>],
           meshCount = 1, width = 64, height = 64 \<rparr> \<rparr>"

text \<open>A packer answer with a non-empty atlas and two meshes, and one with an empty atlas.\<close>

definition two_mesh_run :: xatlas_run where
  "two_mesh_run =
     \<lparr> add_mesh_error = Success,
       atlas = \<lparr> meshes = [], meshCount = 2, width = 64, height = 32 \<rparr> \<rparr>"

definition zero_width_run :: xatlas_run where
  "zero_width_run =
     \<lparr> add_mesh_error = Success,
       atlas = \<lparr> meshes = [], meshCount = 0, width = 0, height = 32 \<rparr> \<rparr>"




text \<open>
  A packer answer for the triangle with six indices for its three, and the mesh the
  consolidator makes of it (with \<open>zero_float_ops\<close> below).
\<close>

definition six_index_run :: xatlas_run where
  "six_index_run =
     \<lparr> add_mesh_error = Success,
       atlas =
         \<lparr> meshes =
             [\<lparr> vertexArray = [xv 10 10 0, xv 20 10 1, xv 20 20 2],
                indexArray = [0, 1, 2, 0, 1, 2], vertexCount = 3, indexCount = 6 \<rparr>],
           meshCount = 1, width = 64, height = 32 \<rparr> \<rparr>"

definition six_index_result :: Mesh where
  "six_index_result =
     tri_mesh\<lparr> m_indices := [0, 1, 2, 0, 1, 2], m_lightmap_width := 64,
       m_lightmap_height := 32, m_has_lightmap_uvs := True \<rparr>"

text \<open>
  Two machines: one that grants every allocation, and one that grants no vector or
  string of \<open>2^28\<close> elements or more (a vertex vector of 24 GiB).
\<close>

definition any_machine :: allocator where
  "any_machine r = True"

definition small_machine :: allocator where
  "small_machine r = (request_size r < 2 ^ 28)"

text \<open>
  The header of a record with hash 5 that announces \<open>2^31 - 1\<close> vertices (206 GB of vertex
  data) and nothing else.
\<close>

definition huge_header :: cache_header where
  "huge_header =
     \<lparr> h_magic = 0x4C4D4150, h_version = 1, h_stored_hash = 5, h_vertex_count = 0x7FFFFFFF,
       h_index_count = 0, h_submesh_count = 0, h_lightmap_width = 64,
       h_lightmap_height = 32 \<rparr>"

text \<open>The header of a cache file with no geometry, hash 5 and a 64 by 32 atlas.\<close>

definition good_header :: cache_header where
  "good_header =
     \<lparr> h_magic = 0x4C4D4150, h_version = 1, h_stored_hash = 5, h_vertex_count = 0,
       h_index_count = 0, h_submesh_count = 0, h_lightmap_width = 64,
       h_lightmap_height = 32 \<rparr>"

text \<open>Float operations for the paths that never reach the division: every result is \<open>0.0f\<close>.\<close>

definition zero_float_ops :: float_ops where
  "zero_float_ops = \<lparr> fdiv = (\<lambda>a b. 0), to_float = (\<lambda>n. 0) \<rparr>"

section \<open>The geometry hash is FNV-1a over positions, indices and submesh ranges\<close>

lemma hash_bytes_foldl:
  "hash_bytes data h = foldl (\<lambda>h x. (h XOR x) * FNV_PRIME) h (map ucast data)"
  by (simp add: hash_bytes_def foldl_map)

lemma foldl_hash_bytes_concat:
  "foldl (\<lambda>h v. hash_bytes (f v) h) h0 vs =
   foldl (\<lambda>h x. (h XOR x) * FNV_PRIME) h0 (map ucast (concat (map f vs)))"
  by (induction vs arbitrary: h0) (simp_all add: hash_bytes_foldl)

lemma foldl_submesh_pairs:
  "foldl (\<lambda>h sm. (((h XOR a sm) * FNV_PRIME) XOR b sm) * FNV_PRIME) h0 sms =
   foldl (\<lambda>h x. (h XOR x) * FNV_PRIME) h0 (concat (map (\<lambda>sm. [a sm, b sm]) sms))"
  by (induction sms arbitrary: h0) simp_all

lemma compute_mesh_hash_unfold:
  "compute_mesh_hash m =
   spec_fnv1a (spec_hash_input (m_vertices m) (m_indices m) (m_sub_meshes m))"
proof -
  have "compute_mesh_hash m =
      foldl (\<lambda>h x. (h XOR x) * FNV_PRIME) FNV_OFFSET
        (spec_hash_input (m_vertices m) (m_indices m) (m_sub_meshes m))"
    unfolding compute_mesh_hash_def spec_hash_input_def Let_def foldl_append
      foldl_hash_bytes_concat
      foldl_submesh_pairs [of "\<lambda>sm. ucast (index_count sm)" "\<lambda>sm. ucast (base_index sm)"]
    by (rule refl)
  then show ?thesis
    by (simp add: spec_fnv1a_def FNV_PRIME_def FNV_OFFSET_def)
qed

lemma submesh_pairs_zip:
  "map (\<lambda>sm. [ucast (index_count sm), ucast (base_index sm) :: u64]) sms =
   map (\<lambda>(c, b). [ucast c, ucast b]) (zip (map index_count sms) (map base_index sms))"
  by (induction sms) simp_all

lemma spec_hash_input_cong:
  assumes "map position vs = map position vs'"
    and "map index_count sms = map index_count sms'"
    and "map base_index sms = map base_index sms'"
  shows "spec_hash_input vs idxs sms = spec_hash_input vs' idxs sms'"
proof -
  have v: "map (\<lambda>v. vec4_bytes (position v)) vs = map (\<lambda>v. vec4_bytes (position v)) vs'"
    using arg_cong [OF assms(1), of "map vec4_bytes"] by (simp add: comp_def)
  have s: "map (\<lambda>sm. [ucast (index_count sm), ucast (base_index sm) :: u64]) sms =
        map (\<lambda>sm. [ucast (index_count sm), ucast (base_index sm)]) sms'"
    unfolding submesh_pairs_zip assms(2) assms(3) by (rule refl)
  show ?thesis
    unfolding spec_hash_input_def v s by (rule refl)
qed

text \<open>
  Claim C2. The hash of a mesh is FNV-1a, offset basis 14695981039346656037 and prime
  1099511628211, folded over the bytes of every vertex position in order, then the bytes
  of every index in order, then \<open>index_count\<close> and \<open>base_index\<close> of every submesh in order.
  It is a function of these three sequences alone: two meshes with the same vertices,
  indices and submeshes have the same hash, whatever the rest of their state.
\<close>

theorem compute_mesh_hash_fnv1a:
  "compute_mesh_hash m =
     spec_fnv1a (spec_hash_input (m_vertices m) (m_indices m) (m_sub_meshes m)) \<and>
   (m_vertices m' = m_vertices m \<and> m_indices m' = m_indices m \<and>
    m_sub_meshes m' = m_sub_meshes m \<longrightarrow> compute_mesh_hash m' = compute_mesh_hash m)"
  by (simp add: compute_mesh_hash_unfold)

theorem compute_mesh_hash_fnv1a_witness:
  "compute_mesh_hash tri_mesh =
     spec_fnv1a (spec_hash_input (m_vertices tri_mesh) (m_indices tri_mesh) (m_sub_meshes tri_mesh)) \<and>
   compute_mesh_hash (tri_mesh\<lparr> m_lightmap_width := 64, m_has_lightmap_uvs := True \<rparr>) =
     compute_mesh_hash tri_mesh"
  using compute_mesh_hash_fnv1a
    [of tri_mesh "tri_mesh\<lparr> m_lightmap_width := 64, m_has_lightmap_uvs := True \<rparr>"]
  by simp

text \<open>
  Claim C8. The hash reads only the position of a vertex: two meshes with the same vertex
  positions, the same indices and the same \<open>index_count\<close> and \<open>base_index\<close> per submesh have
  the same hash, however their normals, tangents, bitangents, primary UVs and lightmap UVs
  differ.
\<close>

theorem compute_mesh_hash_positions_only:
  assumes "map position (m_vertices a) = map position (m_vertices b)"
    and "m_indices a = m_indices b"
    and "map index_count (m_sub_meshes a) = map index_count (m_sub_meshes b)"
    and "map base_index (m_sub_meshes a) = map base_index (m_sub_meshes b)"
  shows "compute_mesh_hash a = compute_mesh_hash b"
  unfolding compute_mesh_hash_unfold assms(2)
  by (simp add: spec_hash_input_cong [OF assms(1) assms(3) assms(4)])

theorem compute_mesh_hash_positions_only_witness:
  "m_vertices tri_mesh \<noteq> m_vertices tri_mesh_other_normals \<and>
   map normal (m_vertices tri_mesh) \<noteq> map normal (m_vertices tri_mesh_other_normals) \<and>
   map tex_coord (m_vertices tri_mesh) \<noteq> map tex_coord (m_vertices tri_mesh_other_normals) \<and>
   compute_mesh_hash tri_mesh = compute_mesh_hash tri_mesh_other_normals"
proof -
  have "compute_mesh_hash tri_mesh = compute_mesh_hash tri_mesh_other_normals"
    by (rule compute_mesh_hash_positions_only)
      (simp_all add: tri_mesh_def tri_mesh_other_normals_def vtx_def)
  then show ?thesis
    by (simp add: tri_mesh_def tri_mesh_other_normals_def vtx_def)
qed
section \<open>Properties of the atlas consolidator\<close>

lemma build_vertices_length:
  "build_vertices f xs = Some ys \<Longrightarrow> length ys = length xs"
  by (induction xs arbitrary: ys) (auto split: option.splits)

lemma build_vertices_nth:
  "build_vertices f xs = Some ys \<Longrightarrow> i < length xs \<Longrightarrow> f (xs ! i) = Some (ys ! i)"
proof (induction xs arbitrary: ys i)
  case Nil
  then show ?case by simp
next
  case (Cons x xs)
  then show ?case
    by (cases i) (auto split: option.splits)
qed

lemma length_rebase_submeshes:
  "length (rebase_submeshes cur n sms) = length sms"
  by (induction sms arbitrary: cur) simp_all

lemma rebase_submeshes_nth:
  "i < length sms \<Longrightarrow>
   rebase_submeshes cur n sms ! i =
     (sms ! i)\<lparr> base_index := cur + sum_list (map index_count (take i sms)),
                base_vertex := 0, vertex_count := n \<rparr>"
proof (induction sms arbitrary: cur i)
  case Nil
  then show ?case by simp
next
  case (Cons sm sms)
  then show ?case
    by (cases i) (simp_all add: add.assoc)
qed

lemma map_index_count_rebase:
  "map index_count (rebase_submeshes cur n sms) = map index_count sms"
  by (induction sms arbitrary: cur) simp_all

lemma unat_sum_list:
  "sum_list (map (\<lambda>x. unat (f x)) xs) < 2 ^ 32 \<Longrightarrow>
   unat (sum_list (map f xs) :: u32) = sum_list (map (\<lambda>x. unat (f x)) xs)"
proof (induction xs)
  case Nil
  then show ?case by simp
next
  case (Cons x xs)
  then have "unat (sum_list (map f xs)) = sum_list (map (\<lambda>x. unat (f x)) xs)" by simp
  with Cons.prems show ?case
    by (simp add: unat_word_ariths)
qed

lemma sum_list_take_le:
  "sum_list (map f (take i xs)) \<le> (sum_list (map f xs) :: nat)"
proof -
  have "sum_list (map f xs) = sum_list (map f (take i xs)) + sum_list (map f (drop i xs))"
    by (metis append_take_drop_id map_append sum_list.append)
  then show ?thesis by simp
qed

lemma generate_lightmap_uvs_success:
  assumes "generate_lightmap_uvs ops xa m = Some (Inr u, m')"
  shows "\<exists>xmesh rest.
    meshes (atlas xa) = xmesh # rest \<and>
    unat (vertexCount xmesh) \<le> length (vertexArray xmesh) \<and>
    build_vertices (new_vert ops (atlas xa) (m_vertices m))
       (take (unat (vertexCount xmesh)) (vertexArray xmesh)) = Some (m_vertices m') \<and>
    unat (indexCount xmesh) \<le> length (indexArray xmesh) \<and>
    m_indices m' = take (unat (indexCount xmesh)) (indexArray xmesh) \<and>
    m_sub_meshes m' =
       rebase_submeshes 0 (of_nat (length (m_vertices m'))) (m_sub_meshes m) \<and>
    m_lightmap_width m' = width (atlas xa) \<and>
    m_lightmap_height m' = height (atlas xa) \<and>
    m_has_lightmap_uvs m'"
  using assms
  by (auto simp add: generate_lightmap_uvs_def Let_def fetch_def
      split: if_splits list.splits option.splits)

lemma generate_lightmap_uvs_failure:
  assumes "generate_lightmap_uvs ops xa m = Some (Inl e, m')"
  shows "m_vertices m' = m_vertices m \<and> m_indices m' = m_indices m \<and>
         m_sub_meshes m' = m_sub_meshes m \<and> m_has_lightmap_uvs m' = m_has_lightmap_uvs m \<and>
         (e \<noteq> UnexpectedMeshCount \<longrightarrow> m' = m)"
  using assms
  by (auto simp add: generate_lightmap_uvs_def Let_def
      split: if_splits list.splits option.splits)

lemma generate_two_submeshes:
  "\<exists>m'. generate_lightmap_uvs ops two_submeshes_run two_submeshes = Some (Inr (), m')"
  by (simp add: generate_lightmap_uvs_def two_submeshes_run_def two_submeshes_def fetch_def
      new_vert_def xv_def Let_def)

lemma generate_seam:
  "\<exists>m'. generate_lightmap_uvs ops seam_run tri_mesh = Some (Inr (), m')"
  by (simp add: generate_lightmap_uvs_def seam_run_def tri_mesh_def fetch_def
      new_vert_def xv_def Let_def)

text \<open>
  Claim C5, as the code has it. After a successful consolidation every submesh keeps its
  \<open>index_count\<close>, its \<open>base_index\<close> is the sum of the \<open>index_count\<close>s of the submeshes before
  it (in the 32-bit arithmetic of the field, and as a number when the sum of all of them
  fits 32 bits), its \<open>base_vertex\<close> is 0 and its \<open>vertex_count\<close> is the length of the new
  vertex buffer. The sum of the \<open>index_count\<close>s is the same before and after; when it is
  the length of the index buffer before, it is the length of the index buffer after
  exactly when the packer has given back as many indices as it was given, which the code
  does not check.
\<close>

theorem consolidation_rebases_submeshes:
  assumes "generate_lightmap_uvs ops xa m = Some (Inr (), m')"
  shows "length (m_sub_meshes m') = length (m_sub_meshes m) \<and>
    (\<forall>i < length (m_sub_meshes m).
       index_count (m_sub_meshes m' ! i) = index_count (m_sub_meshes m ! i) \<and>
       base_index (m_sub_meshes m' ! i) = sum_list (map index_count (take i (m_sub_meshes m))) \<and>
       base_vertex (m_sub_meshes m' ! i) = 0 \<and>
       unat (vertex_count (m_sub_meshes m' ! i)) = length (m_vertices m') \<and>
       (sum_list (map (\<lambda>sm. unat (index_count sm)) (m_sub_meshes m)) < 2 ^ 32 \<longrightarrow>
          unat (base_index (m_sub_meshes m' ! i)) =
            sum_list (map (\<lambda>sm. unat (index_count sm)) (take i (m_sub_meshes m))))) \<and>
    sum_list (map (\<lambda>sm. unat (index_count sm)) (m_sub_meshes m')) =
      sum_list (map (\<lambda>sm. unat (index_count sm)) (m_sub_meshes m)) \<and>
    (sum_list (map (\<lambda>sm. unat (index_count sm)) (m_sub_meshes m)) = length (m_indices m) \<longrightarrow>
       (sum_list (map (\<lambda>sm. unat (index_count sm)) (m_sub_meshes m')) = length (m_indices m')
          \<longleftrightarrow> length (m_indices m') = length (m_indices m)))"
proof -
  obtain xmesh :: xatlas_Mesh where
    le: "unat (vertexCount xmesh) \<le> length (vertexArray xmesh)"
    and bv: "build_vertices (new_vert ops (atlas xa) (m_vertices m))
       (take (unat (vertexCount xmesh)) (vertexArray xmesh)) = Some (m_vertices m')"
    and sm: "m_sub_meshes m' =
       rebase_submeshes 0 (of_nat (length (m_vertices m'))) (m_sub_meshes m)"
    using generate_lightmap_uvs_success [OF assms] by blast
  have len: "length (m_vertices m') = unat (vertexCount xmesh)"
    using build_vertices_length [OF bv] le by simp
  have vc: "unat (of_nat (length (m_vertices m')) :: u32) = length (m_vertices m')"
    by (simp add: len)
  have a: "length (m_sub_meshes m') = length (m_sub_meshes m)"
    by (simp add: sm length_rebase_submeshes)
  have b: "index_count (m_sub_meshes m' ! i) = index_count (m_sub_meshes m ! i) \<and>
       base_index (m_sub_meshes m' ! i) = sum_list (map index_count (take i (m_sub_meshes m))) \<and>
       base_vertex (m_sub_meshes m' ! i) = 0 \<and>
       unat (vertex_count (m_sub_meshes m' ! i)) = length (m_vertices m') \<and>
       (sum_list (map (\<lambda>sm. unat (index_count sm)) (m_sub_meshes m)) < 2 ^ 32 \<longrightarrow>
          unat (base_index (m_sub_meshes m' ! i)) =
            sum_list (map (\<lambda>sm. unat (index_count sm)) (take i (m_sub_meshes m))))"
    if i: "i < length (m_sub_meshes m)" for i
  proof -
    have nth: "m_sub_meshes m' ! i =
        (m_sub_meshes m ! i)\<lparr> base_index := sum_list (map index_count (take i (m_sub_meshes m))),
           base_vertex := 0, vertex_count := of_nat (length (m_vertices m')) \<rparr>"
      using rebase_submeshes_nth [OF i, of 0] by (simp add: sm)
    have nat_sum: "unat (sum_list (map index_count (take i (m_sub_meshes m)))) =
        sum_list (map (\<lambda>sm. unat (index_count sm)) (take i (m_sub_meshes m)))"
      if "sum_list (map (\<lambda>sm. unat (index_count sm)) (m_sub_meshes m)) < 2 ^ 32"
    proof (rule unat_sum_list)
      have "sum_list (map (\<lambda>sm. unat (index_count sm)) (take i (m_sub_meshes m))) \<le>
          sum_list (map (\<lambda>sm. unat (index_count sm)) (m_sub_meshes m))"
        by (rule sum_list_take_le)
      with that show "sum_list (map (\<lambda>sm. unat (index_count sm)) (take i (m_sub_meshes m))) < 2 ^ 32"
        by simp
    qed
    show ?thesis
      using nat_sum by (simp add: nth vc)
  qed
  have c: "sum_list (map (\<lambda>sm. unat (index_count sm)) (m_sub_meshes m')) =
      sum_list (map (\<lambda>sm. unat (index_count sm)) (m_sub_meshes m))"
  proof -
    have "map (\<lambda>sm. unat (index_count sm)) (m_sub_meshes m') =
        map unat (map index_count (m_sub_meshes m'))"
      by (simp add: comp_def)
    also have "\<dots> = map unat (map index_count (m_sub_meshes m))"
      by (simp only: sm map_index_count_rebase)
    also have "\<dots> = map (\<lambda>sm. unat (index_count sm)) (m_sub_meshes m)"
      by (simp add: comp_def)
    finally show ?thesis by (rule arg_cong)
  qed
  have d: "sum_list (map (\<lambda>sm. unat (index_count sm)) (m_sub_meshes m)) = length (m_indices m) \<Longrightarrow>
       (sum_list (map (\<lambda>sm. unat (index_count sm)) (m_sub_meshes m')) = length (m_indices m')
          \<longleftrightarrow> length (m_indices m') = length (m_indices m))"
    using c by auto
  show ?thesis
    by (intro a b c d conjI allI impI) simp_all
qed

theorem consolidation_rebases_submeshes_witness:
  "\<forall>ops. \<exists>m'.
     generate_lightmap_uvs ops two_submeshes_run two_submeshes = Some (Inr (), m') \<and>
     length (m_sub_meshes m') = 2 \<and> length (m_vertices m') = 5 \<and>
     index_count (m_sub_meshes m' ! 0) = 6 \<and> index_count (m_sub_meshes m' ! 1) = 3 \<and>
     base_index (m_sub_meshes m' ! 0) = 0 \<and> base_index (m_sub_meshes m' ! 1) = 6 \<and>
     base_vertex (m_sub_meshes m' ! 0) = 0 \<and> base_vertex (m_sub_meshes m' ! 1) = 0 \<and>
     unat (vertex_count (m_sub_meshes m' ! 0)) = 5 \<and>
     unat (vertex_count (m_sub_meshes m' ! 1)) = 5 \<and>
     sum_list (map (\<lambda>sm. unat (index_count sm)) (m_sub_meshes m')) = length (m_indices m')"
proof
  fix ops
  obtain m' where g: "generate_lightmap_uvs ops two_submeshes_run two_submeshes = Some (Inr (), m')"
    using generate_two_submeshes by blast
  have v: "length (m_vertices m') = 5" and i: "length (m_indices m') = 9"
    using g
    by (auto simp add: generate_lightmap_uvs_def two_submeshes_run_def two_submeshes_def
        fetch_def new_vert_def xv_def Let_def)
  have s: "m_sub_meshes two_submeshes =
      [tri_submesh\<lparr> index_count := 6, vertex_count := 4 \<rparr>,
       tri_submesh\<lparr> base_index := 6, base_vertex := 0 \<rparr>]"
    and i0: "length (m_indices two_submeshes) = 9"
    by (simp_all add: two_submeshes_def)
  have t0: "(0::nat) < 2" and t1: "(1::nat) < 2" by simp_all
  note c = consolidation_rebases_submeshes [OF g]
  from c have "length (m_sub_meshes m') = 2" by (simp add: s)
  moreover from c t0 have "index_count (m_sub_meshes m' ! 0) = 6 \<and>
      base_index (m_sub_meshes m' ! 0) = 0 \<and> base_vertex (m_sub_meshes m' ! 0) = 0 \<and>
      unat (vertex_count (m_sub_meshes m' ! 0)) = 5"
    by (simp add: s v)
  moreover from c t1 have "index_count (m_sub_meshes m' ! 1) = 3 \<and>
      base_index (m_sub_meshes m' ! 1) = 6 \<and> base_vertex (m_sub_meshes m' ! 1) = 0 \<and>
      unat (vertex_count (m_sub_meshes m' ! 1)) = 5"
    by (simp add: s v tri_submesh_def)
  moreover from c have
    "sum_list (map (\<lambda>sm. unat (index_count sm)) (m_sub_meshes m')) = length (m_indices m')"
    by (simp add: s i i0 tri_submesh_def)
  ultimately show "\<exists>m'.
     generate_lightmap_uvs ops two_submeshes_run two_submeshes = Some (Inr (), m') \<and>
     length (m_sub_meshes m') = 2 \<and> length (m_vertices m') = 5 \<and>
     index_count (m_sub_meshes m' ! 0) = 6 \<and> index_count (m_sub_meshes m' ! 1) = 3 \<and>
     base_index (m_sub_meshes m' ! 0) = 0 \<and> base_index (m_sub_meshes m' ! 1) = 6 \<and>
     base_vertex (m_sub_meshes m' ! 0) = 0 \<and> base_vertex (m_sub_meshes m' ! 1) = 0 \<and>
     unat (vertex_count (m_sub_meshes m' ! 0)) = 5 \<and>
     unat (vertex_count (m_sub_meshes m' ! 1)) = 5 \<and>
     sum_list (map (\<lambda>sm. unat (index_count sm)) (m_sub_meshes m')) = length (m_indices m')"
    using g v by blast
qed

text \<open>
  Claim C5 as stated fails when the packer gives back six indices for the three of the
  triangle: the consolidation succeeds, the \<open>index_count\<close>s sum to the length of the index
  buffer before (3) and not after (6).
\<close>

theorem consolidation_breaks_index_sum:
  "generate_lightmap_uvs zero_float_ops six_index_run tri_mesh = Some (Inr (), six_index_result) \<and>
   sum_list (map (\<lambda>sm. unat (index_count sm)) (m_sub_meshes tri_mesh)) = 3 \<and>
   length (m_indices tri_mesh) = 3 \<and>
   sum_list (map (\<lambda>sm. unat (index_count sm)) (m_sub_meshes six_index_result)) = 3 \<and>
   length (m_indices six_index_result) = 6"
  by (simp add: generate_lightmap_uvs_def six_index_run_def six_index_result_def tri_mesh_def
      tri_submesh_def fetch_def new_vert_def xv_def vtx_def zero_float_ops_def Let_def)

text \<open>
  Claim C6. After a successful consolidation the new vertex buffer has one vertex per
  output vertex of the packer, and each is the pre-atlas vertex at the output vertex's
  back-reference with only the lightmap UV overwritten, by
  \<open>(uv[0] / float(width), uv[1] / float(height), 0, 0)\<close>. Output vertices with the same
  back-reference therefore share position, normal, tangent, bitangent and primary UV, and
  each carries the lightmap UV of its own atlas position: a seam vertex that comes out
  twice makes the buffer one longer.
\<close>

theorem consolidation_copies_vertices:
  assumes "generate_lightmap_uvs ops xa m = Some (Inr (), m')"
  shows "\<exists>xmesh rest.
    meshes (atlas xa) = xmesh # rest \<and>
    length (m_vertices m') = unat (vertexCount xmesh) \<and>
    (\<forall>v < unat (vertexCount xmesh).
       unat (xref (vertexArray xmesh ! v)) < length (m_vertices m) \<and>
       m_vertices m' ! v =
         (m_vertices m ! unat (xref (vertexArray xmesh ! v)))
           \<lparr> lightmap_tex_coord :=
               Vec4 (fdiv ops (fst (uv (vertexArray xmesh ! v))) (to_float ops (width (atlas xa))))
                    (fdiv ops (snd (uv (vertexArray xmesh ! v))) (to_float ops (height (atlas xa))))
                    0 0 \<rparr>) \<and>
    (\<forall>v w. v < unat (vertexCount xmesh) \<and> w < unat (vertexCount xmesh) \<and>
       xref (vertexArray xmesh ! v) = xref (vertexArray xmesh ! w) \<longrightarrow>
         position (m_vertices m' ! v) = position (m_vertices m' ! w) \<and>
         normal (m_vertices m' ! v) = normal (m_vertices m' ! w) \<and>
         tangent (m_vertices m' ! v) = tangent (m_vertices m' ! w) \<and>
         bitangent (m_vertices m' ! v) = bitangent (m_vertices m' ! w) \<and>
         tex_coord (m_vertices m' ! v) = tex_coord (m_vertices m' ! w))"
proof -
  obtain xmesh :: xatlas_Mesh and rest where
    ms: "meshes (atlas xa) = xmesh # rest"
    and le: "unat (vertexCount xmesh) \<le> length (vertexArray xmesh)"
    and bv: "build_vertices (new_vert ops (atlas xa) (m_vertices m))
       (take (unat (vertexCount xmesh)) (vertexArray xmesh)) = Some (m_vertices m')"
    using generate_lightmap_uvs_success [OF assms] by blast
  have len: "length (m_vertices m') = unat (vertexCount xmesh)"
    using build_vertices_length [OF bv] le by simp
  have each: "unat (xref (vertexArray xmesh ! v)) < length (m_vertices m) \<and>
       m_vertices m' ! v =
         (m_vertices m ! unat (xref (vertexArray xmesh ! v)))
           \<lparr> lightmap_tex_coord :=
               Vec4 (fdiv ops (fst (uv (vertexArray xmesh ! v))) (to_float ops (width (atlas xa))))
                    (fdiv ops (snd (uv (vertexArray xmesh ! v))) (to_float ops (height (atlas xa))))
                    0 0 \<rparr>"
    if v: "v < unat (vertexCount xmesh)" for v
  proof -
    have "new_vert ops (atlas xa) (m_vertices m)
        (take (unat (vertexCount xmesh)) (vertexArray xmesh) ! v) = Some (m_vertices m' ! v)"
      using build_vertices_nth [OF bv, of v] v le by simp
    then have "new_vert ops (atlas xa) (m_vertices m) (vertexArray xmesh ! v) =
        Some (m_vertices m' ! v)"
      using v by simp
    then show ?thesis
      by (auto simp add: new_vert_def split: if_splits)
  qed
  have same: "position (m_vertices m' ! v) = position (m_vertices m' ! w) \<and>
         normal (m_vertices m' ! v) = normal (m_vertices m' ! w) \<and>
         tangent (m_vertices m' ! v) = tangent (m_vertices m' ! w) \<and>
         bitangent (m_vertices m' ! v) = bitangent (m_vertices m' ! w) \<and>
         tex_coord (m_vertices m' ! v) = tex_coord (m_vertices m' ! w)"
    if "v < unat (vertexCount xmesh) \<and> w < unat (vertexCount xmesh) \<and>
       xref (vertexArray xmesh ! v) = xref (vertexArray xmesh ! w)" for v w
    using that each [of v] each [of w] by simp
  show ?thesis
    by (intro exI [of _ xmesh] exI [of _ rest] ms len each same conjI allI impI) simp_all
qed

theorem consolidation_copies_vertices_witness:
  "\<forall>ops. \<exists>m'.
     generate_lightmap_uvs ops seam_run tri_mesh = Some (Inr (), m') \<and>
     length (m_vertices m') = length (m_vertices tri_mesh) + 1 \<and>
     position (m_vertices m' ! 0) = position (m_vertices m' ! 3) \<and>
     normal (m_vertices m' ! 0) = normal (m_vertices m' ! 3) \<and>
     m_vertices m' ! 0 =
       (m_vertices tri_mesh ! 0)
         \<lparr> lightmap_tex_coord :=
             Vec4 (fdiv ops 10 (to_float ops 64)) (fdiv ops 10 (to_float ops 32)) 0 0 \<rparr> \<and>
     m_vertices m' ! 3 =
       (m_vertices tri_mesh ! 0)
         \<lparr> lightmap_tex_coord :=
             Vec4 (fdiv ops 40 (to_float ops 64)) (fdiv ops 40 (to_float ops 32)) 0 0 \<rparr>"
proof
  fix ops
  obtain m' where g: "generate_lightmap_uvs ops seam_run tri_mesh = Some (Inr (), m')"
    using generate_seam by blast
  have ms: "meshes (atlas seam_run) =
      [\<lparr> vertexArray = [xv 10 10 0, xv 20 10 1, xv 20 20 2, xv 40 40 0],
         indexArray = [3, 1, 2], vertexCount = 4, indexCount = 3 \<rparr>]"
    and wh: "width (atlas seam_run) = 64" "height (atlas seam_run) = 32"
    by (simp_all add: seam_run_def)
  have t0: "(0::nat) < 4" and t3: "(3::nat) < 4" by simp_all
  from consolidation_copies_vertices [OF g] ms
  have len: "length (m_vertices m') = 4"
    and each: "\<forall>v<4. m_vertices m' ! v =
         (m_vertices tri_mesh ! unat (xref ([xv 10 10 0, xv 20 10 1, xv 20 20 2, xv 40 40 0] ! v)))
           \<lparr> lightmap_tex_coord :=
               Vec4 (fdiv ops (fst (uv ([xv 10 10 0, xv 20 10 1, xv 20 20 2, xv 40 40 0] ! v)))
                       (to_float ops 64))
                    (fdiv ops (snd (uv ([xv 10 10 0, xv 20 10 1, xv 20 20 2, xv 40 40 0] ! v)))
                       (to_float ops 32))
                    0 0 \<rparr>"
    and same: "\<forall>v w. v < 4 \<and> w < 4 \<and>
       xref ([xv 10 10 0, xv 20 10 1, xv 20 20 2, xv 40 40 0] ! v) =
       xref ([xv 10 10 0, xv 20 10 1, xv 20 20 2, xv 40 40 0] ! w) \<longrightarrow>
         position (m_vertices m' ! v) = position (m_vertices m' ! w) \<and>
         normal (m_vertices m' ! v) = normal (m_vertices m' ! w)"
    by (simp_all add: wh)
  have p: "position (m_vertices m' ! 0) = position (m_vertices m' ! 3) \<and>
      normal (m_vertices m' ! 0) = normal (m_vertices m' ! 3)"
    using same t0 t3 by (simp add: xv_def)
  have e0: "m_vertices m' ! 0 =
       (m_vertices tri_mesh ! 0)
         \<lparr> lightmap_tex_coord :=
             Vec4 (fdiv ops 10 (to_float ops 64)) (fdiv ops 10 (to_float ops 32)) 0 0 \<rparr>"
    using each t0 by (simp add: xv_def)
  have e3: "m_vertices m' ! 3 =
       (m_vertices tri_mesh ! 0)
         \<lparr> lightmap_tex_coord :=
             Vec4 (fdiv ops 40 (to_float ops 64)) (fdiv ops 40 (to_float ops 32)) 0 0 \<rparr>"
    using each t3 by (simp add: xv_def)
  have l: "length (m_vertices m') = length (m_vertices tri_mesh) + 1"
    by (simp add: len tri_mesh_def)
  show "\<exists>m'.
     generate_lightmap_uvs ops seam_run tri_mesh = Some (Inr (), m') \<and>
     length (m_vertices m') = length (m_vertices tri_mesh) + 1 \<and>
     position (m_vertices m' ! 0) = position (m_vertices m' ! 3) \<and>
     normal (m_vertices m' ! 0) = normal (m_vertices m' ! 3) \<and>
     m_vertices m' ! 0 =
       (m_vertices tri_mesh ! 0)
         \<lparr> lightmap_tex_coord :=
             Vec4 (fdiv ops 10 (to_float ops 64)) (fdiv ops 10 (to_float ops 32)) 0 0 \<rparr> \<and>
     m_vertices m' ! 3 =
       (m_vertices tri_mesh ! 0)
         \<lparr> lightmap_tex_coord :=
             Vec4 (fdiv ops 40 (to_float ops 64)) (fdiv ops 40 (to_float ops 32)) 0 0 \<rparr>"
    using g l p e0 e3 by blast
qed

text \<open>
  Claim C7, as the code has it. \<open>generate_lightmap_uvs\<close> returns \<open>false\<close> when the vertices
  or the indices are empty, when the packer reports an atlas of width or height zero, and
  when it reports a mesh count other than one. Whenever it returns \<open>false\<close> the vertices,
  the indices, the submeshes and the flag \<open>m_has_lightmap_uvs\<close> are as before; on every
  failure but the unexpected mesh count the whole mesh is as before.
\<close>

theorem generate_lightmap_uvs_failure_frame:
  "(m_vertices m = [] \<or> m_indices m = [] \<longrightarrow>
      generate_lightmap_uvs ops xa m = Some (Inl NoGeometry, m)) \<and>
   (m_vertices m \<noteq> [] \<and> m_indices m \<noteq> [] \<and> add_mesh_error xa = Success \<and>
    (width (atlas xa) = 0 \<or> height (atlas xa) = 0) \<longrightarrow>
      generate_lightmap_uvs ops xa m = Some (Inl ZeroDimensions, m)) \<and>
   (m_vertices m \<noteq> [] \<and> m_indices m \<noteq> [] \<and> add_mesh_error xa = Success \<and>
    width (atlas xa) \<noteq> 0 \<and> height (atlas xa) \<noteq> 0 \<and> meshCount (atlas xa) \<noteq> 1 \<longrightarrow>
      (\<exists>m1. generate_lightmap_uvs ops xa m = Some (Inl UnexpectedMeshCount, m1))) \<and>
   (generate_lightmap_uvs ops xa m = Some (Inl e, m') \<longrightarrow>
      m_vertices m' = m_vertices m \<and> m_indices m' = m_indices m \<and>
      m_sub_meshes m' = m_sub_meshes m \<and> m_has_lightmap_uvs m' = m_has_lightmap_uvs m \<and>
      (e \<noteq> UnexpectedMeshCount \<longrightarrow> m' = m))"
  (is "?A \<and> ?B \<and> ?C \<and> ?D")
proof -
  have a: ?A
    by (auto simp add: generate_lightmap_uvs_def)
  have b: ?B
    by (auto simp add: generate_lightmap_uvs_def)
  have c: ?C
    by (simp add: generate_lightmap_uvs_def Let_def)
  have d: ?D
  proof
    assume f: "generate_lightmap_uvs ops xa m = Some (Inl e, m')"
    show "m_vertices m' = m_vertices m \<and> m_indices m' = m_indices m \<and>
      m_sub_meshes m' = m_sub_meshes m \<and> m_has_lightmap_uvs m' = m_has_lightmap_uvs m \<and>
      (e \<noteq> UnexpectedMeshCount \<longrightarrow> m' = m)"
      by (rule generate_lightmap_uvs_failure [OF f])
  qed
  show ?thesis
    by (rule conjI [OF a conjI [OF b conjI [OF c d]]])
qed
theorem generate_lightmap_uvs_failure_frame_witness:
  "\<forall>ops.
     generate_lightmap_uvs ops seam_run empty_mesh = Some (Inl NoGeometry, empty_mesh) \<and>
     generate_lightmap_uvs ops zero_width_run tri_mesh = Some (Inl ZeroDimensions, tri_mesh) \<and>
     (\<exists>m1. generate_lightmap_uvs ops two_mesh_run tri_mesh = Some (Inl UnexpectedMeshCount, m1) \<and>
        m_vertices m1 = m_vertices tri_mesh \<and> m_indices m1 = m_indices tri_mesh \<and>
        m_sub_meshes m1 = m_sub_meshes tri_mesh \<and>
        m_has_lightmap_uvs m1 = m_has_lightmap_uvs tri_mesh)"
proof
  fix ops
  have a: "generate_lightmap_uvs ops seam_run empty_mesh = Some (Inl NoGeometry, empty_mesh)"
    using generate_lightmap_uvs_failure_frame [of empty_mesh ops seam_run]
    by (simp add: empty_mesh_def)
  have b: "generate_lightmap_uvs ops zero_width_run tri_mesh = Some (Inl ZeroDimensions, tri_mesh)"
    using generate_lightmap_uvs_failure_frame [of tri_mesh ops zero_width_run]
    by (simp add: tri_mesh_def zero_width_run_def)
  obtain m1 where c: "generate_lightmap_uvs ops two_mesh_run tri_mesh = Some (Inl UnexpectedMeshCount, m1)"
    using generate_lightmap_uvs_failure_frame [of tri_mesh ops two_mesh_run]
    by (auto simp add: tri_mesh_def two_mesh_run_def)
  have d: "m_vertices m1 = m_vertices tri_mesh \<and> m_indices m1 = m_indices tri_mesh \<and>
        m_sub_meshes m1 = m_sub_meshes tri_mesh \<and>
        m_has_lightmap_uvs m1 = m_has_lightmap_uvs tri_mesh"
    using generate_lightmap_uvs_failure_frame [of tri_mesh ops two_mesh_run UnexpectedMeshCount m1] c
    by simp
  show "generate_lightmap_uvs ops seam_run empty_mesh = Some (Inl NoGeometry, empty_mesh) \<and>
     generate_lightmap_uvs ops zero_width_run tri_mesh = Some (Inl ZeroDimensions, tri_mesh) \<and>
     (\<exists>m1. generate_lightmap_uvs ops two_mesh_run tri_mesh = Some (Inl UnexpectedMeshCount, m1) \<and>
        m_vertices m1 = m_vertices tri_mesh \<and> m_indices m1 = m_indices tri_mesh \<and>
        m_sub_meshes m1 = m_sub_meshes tri_mesh \<and>
        m_has_lightmap_uvs m1 = m_has_lightmap_uvs tri_mesh)"
    using a b c d by blast
qed

text \<open>
  Claim C7 as stated fails where the packer reports two meshes: the function returns
  \<open>false\<close> after it has stored the atlas dimensions in the mesh.
\<close>

theorem generate_lightmap_uvs_mutates_on_failure:
  "generate_lightmap_uvs zero_float_ops two_mesh_run tri_mesh =
     Some (Inl UnexpectedMeshCount,
           tri_mesh\<lparr> m_lightmap_width := 64, m_lightmap_height := 32 \<rparr>) \<and>
   tri_mesh\<lparr> m_lightmap_width := 64, m_lightmap_height := 32 \<rparr> \<noteq> tri_mesh \<and>
   m_lightmap_width tri_mesh = 0 \<and> m_lightmap_height tri_mesh = 0"
  by (simp add: generate_lightmap_uvs_def two_mesh_run_def tri_mesh_def Let_def)

section \<open>The cache codec\<close>

subsection \<open>Bytes of values\<close>

lemma length_le32 [simp]: "length (le32 w) = 4"
  by (simp add: le32_def)

lemma length_le64 [simp]: "length (le64 w) = 8"
  by (simp add: le64_def)

lemma of_le32_le32 [simp]: "of_le32 (le32 w) = w"
proof -
  have "bit (of_le32 (le32 w)) n = bit w n" for n
  proof -
    consider "n < 8" | "8 \<le> n" "n < 16" | "16 \<le> n" "n < 24" | "24 \<le> n" "n < 32" | "32 \<le> n"
      by linarith
    then show ?thesis
      by cases (auto simp add: le32_def of_le32_def bit_simps dest: bit_imp_le_length)
  qed
  then show ?thesis by (rule bit_eqI)
qed

lemma of_le64_le64 [simp]: "of_le64 (le64 w) = w"
proof -
  have "bit (of_le64 (le64 w)) n = bit w n" for n
  proof -
    consider "n < 8" | "8 \<le> n" "n < 16" | "16 \<le> n" "n < 24" | "24 \<le> n" "n < 32"
      | "32 \<le> n" "n < 40" | "40 \<le> n" "n < 48" | "48 \<le> n" "n < 56" | "56 \<le> n" "n < 64"
      | "64 \<le> n"
      by linarith
    then show ?thesis
      by cases (auto simp add: le64_def of_le64_def bit_simps dest: bit_imp_le_length)
  qed
  then show ?thesis by (rule bit_eqI)
qed

lemma slice_0_append [simp]: "length xs = n \<Longrightarrow> slice 0 n (xs @ ys) = xs"
  by (simp add: slice_def)

lemma slice_skip_append: "length xs = k \<Longrightarrow> slice (k + off) n (xs @ ys) = slice off n ys"
  by (simp add: slice_def)

lemma length_vec3_bytes [simp]: "length (vec3_bytes v) = 12"
  by (cases v) simp

lemma length_vec4_bytes [simp]: "length (vec4_bytes v) = 16"
  by (cases v) simp

lemma vec3_of_bytes_bytes [simp]: "vec3_of_bytes (vec3_bytes v) = v"
proof (cases v)
  case (Vec3 a b c)
  have "slice 4 4 (le32 a @ le32 b @ le32 c) = le32 b"
    using slice_skip_append [of "le32 a" 4 0 4 "le32 b @ le32 c"] by simp
  moreover have "slice 8 4 (le32 a @ le32 b @ le32 c) = le32 c"
    using slice_skip_append [of "le32 a @ le32 b" 8 0 4 "le32 c"] by (simp add: slice_def)
  ultimately show ?thesis
    by (simp add: Vec3 vec3_of_bytes_def)
qed

lemma vec4_of_bytes_bytes [simp]: "vec4_of_bytes (vec4_bytes v) = v"
proof (cases v)
  case (Vec4 a b c d)
  have "slice 4 4 (le32 a @ le32 b @ le32 c @ le32 d) = le32 b"
    by (simp add: slice_def)
  moreover have "slice 8 4 (le32 a @ le32 b @ le32 c @ le32 d) = le32 c"
    by (simp add: slice_def)
  moreover have "slice 12 4 (le32 a @ le32 b @ le32 c @ le32 d) = le32 d"
    by (simp add: slice_def)
  ultimately show ?thesis
    by (simp add: Vec4 vec4_of_bytes_def)
qed

lemma length_Vertex_bytes [simp]: "length (Vertex_bytes v) = 96"
  by (simp add: Vertex_bytes_def)

lemma Vertex_of_bytes_bytes [simp]: "Vertex_of_bytes (Vertex_bytes v) = v"
  by (simp add: Vertex_of_bytes_def Vertex_bytes_def slice_def)


subsection \<open>Reading back what was written\<close>

lemma read_raw_append:
  "n = int (length d) \<Longrightarrow> read_raw n (d @ rest) = Some (d, rest)"
  by (simp add: read_raw_def)

lemma rbind_Some: "p bs = Some (a, rest) \<Longrightarrow> rbind p f bs = f a rest"
  by (simp add: rbind_def)

lemma rbind_None: "p bs = None \<Longrightarrow> rbind p f bs = None"
  by (simp add: rbind_def)

lemma read_u32_le32 [simp]: "read_u32 (le32 w @ rest) = Some (w, rest)"
  by (simp add: read_u32_def rbind_def read_raw_append rreturn_def)

lemma read_u64_le64 [simp]: "read_u64 (le64 w @ rest) = Some (w, rest)"
  by (simp add: read_u64_def rbind_def read_raw_append rreturn_def)

lemma read_vec3_bytes [simp]: "read_vec3 (vec3_bytes v @ rest) = Some (v, rest)"
  by (simp add: read_vec3_def rbind_def read_raw_append rreturn_def)

lemma read_header_bytes: "read_header (spec_header_layout hdr @ rest) = Some (hdr, rest)"
  by (simp add: read_header_def spec_header_layout_def rbind_Some rreturn_def)

lemma slice_concat:
  assumes "\<forall>x \<in> set xs. length (enc x) = sz" and "i < length xs"
  shows "slice (i * sz) sz (concat (map enc xs)) = enc (xs ! i)"
  using assms
proof (induction xs arbitrary: i)
  case Nil
  then show ?case by simp
next
  case (Cons x xs)
  show ?case
  proof (cases i)
    case 0
    with Cons.prems show ?thesis by (simp add: slice_def)
  next
    case (Suc j)
    with Cons.prems have "slice (j * sz) sz (concat (map enc xs)) = enc (xs ! j)"
      by (intro Cons.IH) simp_all
    with Cons.prems Suc show ?thesis
      by (simp add: slice_def)
  qed
qed

lemma length_concat_fixed:
  "\<forall>x \<in> set xs. length (enc x) = sz \<Longrightarrow> length (concat (map enc xs)) = length xs * sz"
  by (induction xs) simp_all

lemma sint_of_nat_small:
  "n < 2 ^ 31 \<Longrightarrow> sint (of_nat n :: u32) = int n"
  by (simp add: signed_of_nat signed_take_bit_int_eq_self)

lemma unat_of_nat_small:
  "n < 2 ^ 32 \<Longrightarrow> unat (of_nat n :: u32) = n"
  by (simp add: unat_of_nat)

lemma read_array_bytes:
  assumes "\<forall>x \<in> set xs. length (enc x) = sz" and "\<And>x. dec (enc x) = x"
    and "length xs < 2 ^ 31"
  shows "read_array (of_nat (length xs)) sz dec (concat (map enc xs) @ rest) = Some (xs, rest)"
proof -
  have s: "sint (of_nat (length xs) :: u32) = int (length xs)"
    using assms(3) by (rule sint_of_nat_small)
  have u: "unat (of_nat (length xs) :: u32) = length xs"
    using assms(3) by (simp add: unat_of_nat_small)
  have r: "read_raw (sint (of_nat (length xs) :: u32) * int sz) (concat (map enc xs) @ rest) =
      Some (concat (map enc xs), rest)"
    by (rule read_raw_append) (simp add: s length_concat_fixed [OF assms(1)])
  have "map (\<lambda>i. dec (slice (i * sz) sz (concat (map enc xs)))) [0..<length xs] = xs"
    by (rule nth_equalityI) (simp_all add: slice_concat [OF assms(1)] assms(2))
  then show ?thesis
    by (simp add: read_array_def rbind_def r rreturn_def u)
qed

lemma read_submesh_bytes:
  assumes "length (name sm) < 2 ^ 32"
  shows "read_submesh (spec_submesh_layout sm @ rest) = Some (sm, rest)"
proof -
  have u: "uint (of_nat (length (name sm)) :: u32) = int (length (name sm))"
    using assms by (simp add: uint_nat unat_of_nat_small)
  show ?thesis
    by (simp add: read_submesh_def spec_submesh_layout_def rbind_Some read_raw_append u rreturn_def)
qed

lemma read_n_submeshes:
  assumes "list_all (\<lambda>sm. length (name sm) < 2 ^ 32) sms"
  shows "read_n (length sms) read_submesh (concat (map spec_submesh_layout sms) @ rest) = Some (sms, rest)"
  using assms
proof (induction sms)
  case Nil
  then show ?case by (simp add: rreturn_def)
next
  case (Cons sm sms)
  then show ?case
    by (simp add: rbind_Some read_submesh_bytes rreturn_def)
qed

subsection \<open>Writing, and the round trip\<close>

lemma write_raw_ok:
  "\<not> failbit s \<Longrightarrow> 0 \<le> n \<Longrightarrow> write_raw n d s = s\<lparr> written := written s @ take (nat n) d \<rparr>"
  by (simp add: write_raw_def)

lemma write_u32_ok:
  "\<not> failbit s \<Longrightarrow> write_u32 w s = s\<lparr> written := written s @ le32 w \<rparr>"
  by (simp add: write_u32_def write_raw_ok)

lemma write_u64_ok:
  "\<not> failbit s \<Longrightarrow> write_u64 w s = s\<lparr> written := written s @ le64 w \<rparr>"
  by (simp add: write_u64_def write_raw_ok)

lemma write_vec3_ok:
  "\<not> failbit s \<Longrightarrow> write_vec3 v s = s\<lparr> written := written s @ vec3_bytes v \<rparr>"
  by (simp add: write_vec3_def write_raw_ok)

lemma write_submesh_ok:
  assumes "\<not> failbit s" and "length (name sm) < 2 ^ 32"
  shows "write_submesh sm s = s\<lparr> written := written s @ spec_submesh_layout sm \<rparr>"
proof -
  have u: "unat (of_nat (length (name sm)) :: u32) = length (name sm)"
    using assms(2) by (rule unat_of_nat_small)
  show ?thesis
    using assms(1)
    by (simp add: write_submesh_def Let_def write_u32_ok write_vec3_ok write_raw_ok u
        spec_submesh_layout_def)
qed

lemma fold_write_submesh:
  assumes "list_all (\<lambda>sm. length (name sm) < 2 ^ 32) sms" and "\<not> failbit s"
  shows "fold write_submesh sms s = s\<lparr> written := written s @ concat (map spec_submesh_layout sms) \<rparr>"
  using assms
proof (induction sms arbitrary: s)
  case Nil
  then show ?case by simp
next
  case (Cons sm sms)
  then show ?case
    by (simp add: write_submesh_ok)
qed

lemma write_cache_bytes:
  assumes "cache_representable m"
  shows "write_cache m h \<lparr> written = [], failbit = False \<rparr> =
         \<lparr> written = spec_cache_layout m h, failbit = False \<rparr>"
proof -
  have v: "sint (of_nat (length (m_vertices m)) :: u32) = int (length (m_vertices m))"
    and i: "sint (of_nat (length (m_indices m)) :: u32) = int (length (m_indices m))"
    and n: "list_all (\<lambda>sm. length (name sm) < 2 ^ 32) (m_sub_meshes m)"
    using assms by (simp_all add: cache_representable_def sint_of_nat_small)
  have lv: "length (concat (map Vertex_bytes (m_vertices m))) = length (m_vertices m) * 96"
    by (rule length_concat_fixed) simp
  have li: "length (concat (map le32 (m_indices m))) = length (m_indices m) * 4"
    by (rule length_concat_fixed) simp
  show ?thesis
    by (simp add: write_cache_def Let_def write_u32_ok write_u64_ok write_raw_ok v i
        fold_write_submesh [OF n] lv li sizeof_Vertex_def spec_cache_layout_def spec_header_layout_def
        cache_header_of_def)
qed

lemma save_lightmap_cache_bytes:
  "cache_representable m \<Longrightarrow> save_lightmap_cache m True h = (True, Some (spec_cache_layout m h))"
  by (simp add: save_lightmap_cache_def write_cache_bytes)

lemma read_data_bytes:
  assumes "cache_representable m"
  shows "read_data (cache_header_of m h)
      (concat (map Vertex_bytes (m_vertices m)) @ concat (map le32 (m_indices m)) @
       concat (map spec_submesh_layout (m_sub_meshes m)) @ rest) =
    Some ((m_vertices m, m_indices m, m_sub_meshes m), rest)"
proof -
  have v: "length (m_vertices m) < 2 ^ 31" and i: "length (m_indices m) < 2 ^ 31"
    and s: "length (m_sub_meshes m) < 2 ^ 32"
    and n: "list_all (\<lambda>sm. length (name sm) < 2 ^ 32) (m_sub_meshes m)"
    using assms unfolding cache_representable_def by blast+
  have rv: "read_array (of_nat (length (m_vertices m))) sizeof_Vertex Vertex_of_bytes
      (concat (map Vertex_bytes (m_vertices m)) @ r) = Some (m_vertices m, r)" for r
    using v by (intro read_array_bytes) (simp_all add: sizeof_Vertex_def)
  have ri: "read_array (of_nat (length (m_indices m))) 4 of_le32
      (concat (map le32 (m_indices m)) @ r) = Some (m_indices m, r)" for r
    using i by (intro read_array_bytes) simp_all
  have rs: "read_n (unat (of_nat (length (m_sub_meshes m)) :: u32)) read_submesh
      (concat (map spec_submesh_layout (m_sub_meshes m)) @ r) = Some (m_sub_meshes m, r)" for r
    by (simp add: unat_of_nat_small [OF s] read_n_submeshes [OF n])
  show ?thesis
    by (simp add: read_data_def cache_header_of_def rbind_def rv ri rs rreturn_def)
qed

lemma decode_cache_bytes:
  assumes "cache_representable m"
  shows "decode_cache (spec_cache_layout m h @ rest) h =
    Inr (cache_header_of m h, (m_vertices m, m_indices m, m_sub_meshes m), rest)"
proof -
  have "read_header (spec_cache_layout m h @ rest) =
      Some (cache_header_of m h,
        concat (map Vertex_bytes (m_vertices m)) @ concat (map le32 (m_indices m)) @
        concat (map spec_submesh_layout (m_sub_meshes m)) @ rest)"
    by (simp add: spec_cache_layout_def read_header_bytes)
  then show ?thesis
    by (simp add: decode_cache_def read_data_bytes [OF assms]) (simp add: cache_header_of_def)
qed

lemma load_lightmap_cache_bytes:
  assumes "cache_representable m"
  shows "load_lightmap_cache m0 (Some (spec_cache_layout m h @ rest)) h =
    (Inr (),
     m0\<lparr> m_vertices := m_vertices m, m_indices := m_indices m,
         m_sub_meshes := m_sub_meshes m, m_lightmap_width := m_lightmap_width m,
         m_lightmap_height := m_lightmap_height m, m_has_lightmap_uvs := True \<rparr>)"
  by (simp add: load_lightmap_cache_def decode_cache_bytes [OF assms] cache_header_of_def)

text \<open>
  The round trip below \<open>2^31\<close> vertices and indices: saving with hash \<open>h\<close> succeeds and
  writes exactly the specified layout, and loading these bytes with expected hash \<open>h\<close>
  succeeds and adopts exactly the saved vertices, indices, submeshes and atlas
  dimensions; the stored hash is \<open>h\<close>.
\<close>

lemma cache_round_trip:
  assumes "cache_representable m"
  shows "fst (save_lightmap_cache m True h) = True \<and>
    snd (save_lightmap_cache m True h) = Some (spec_cache_layout m h) \<and>
    load_lightmap_cache m0 (snd (save_lightmap_cache m True h)) h =
      (Inr (),
       m0\<lparr> m_vertices := m_vertices m, m_indices := m_indices m,
           m_sub_meshes := m_sub_meshes m, m_lightmap_width := m_lightmap_width m,
           m_lightmap_height := m_lightmap_height m, m_has_lightmap_uvs := True \<rparr>) \<and>
    (\<exists>hdr rest. decode_cache (spec_cache_layout m h) h =
        Inr (hdr, (m_vertices m, m_indices m, m_sub_meshes m), rest) \<and>
      h_stored_hash hdr = h \<and> h_lightmap_width hdr = m_lightmap_width m \<and>
      h_lightmap_height hdr = m_lightmap_height m)"
  using load_lightmap_cache_bytes [OF assms, of m0 h "[]"]
    decode_cache_bytes [OF assms, of h "[]"]
  by (simp add: save_lightmap_cache_bytes [OF assms] cache_header_of_def)

lemma cache_representable_tri_mesh: "cache_representable tri_mesh"
  by (simp add: cache_representable_def tri_mesh_def tri_submesh_def)






subsection \<open>Readers consume a prefix\<close>

lemma reader_okI:
  assumes "\<And>bs a rest. p bs = Some (a, rest) \<Longrightarrow>
     \<exists>used. bs = used @ rest \<and> (\<forall>extra. p (used @ extra) = Some (a, extra)) \<and>
       (\<forall>k < length used. p (take k used) = None)"
  shows "reader_ok p"
  using assms unfolding reader_ok_def by blast

lemma reader_okD:
  assumes "reader_ok p" and "p bs = Some (a, rest)"
  shows "\<exists>used. bs = used @ rest \<and> (\<forall>extra. p (used @ extra) = Some (a, extra)) \<and>
       (\<forall>k < length used. p (take k used) = None)"
  using assms unfolding reader_ok_def by blast

lemma reader_ok_read_raw: "reader_ok (read_raw n)"
proof (rule reader_okI)
  fix bs a rest
  assume r: "read_raw n bs = Some (a, rest)"
  then have n: "0 \<le> n" "nat n \<le> length bs" and a: "a = take (nat n) bs"
    and rest: "rest = drop (nat n) bs"
    by (auto simp add: read_raw_def split: if_splits)
  have "bs = a @ rest"
    by (simp add: a rest)
  moreover have "read_raw n (a @ extra) = Some (a, extra)" for extra
    using n by (simp add: read_raw_def a)
  moreover have "read_raw n (take k a) = None" if "k < length a" for k
    using that n by (simp add: read_raw_def a)
  ultimately show "\<exists>used. bs = used @ rest \<and>
      (\<forall>extra. read_raw n (used @ extra) = Some (a, extra)) \<and>
      (\<forall>k < length used. read_raw n (take k used) = None)"
    by blast
qed

lemma reader_ok_rreturn: "reader_ok (rreturn a)"
  by (rule reader_okI) (simp add: rreturn_def)

lemma reader_ok_rbind:
  assumes p: "reader_ok p" and f: "\<And>a. reader_ok (f a)"
  shows "reader_ok (rbind p f)"
proof (rule reader_okI)
  fix bs b rest
  assume "rbind p f bs = Some (b, rest)"
  then obtain a r1 where pa: "p bs = Some (a, r1)" and fa: "f a r1 = Some (b, rest)"
    by (auto simp add: rbind_def split: option.splits)
  obtain u1 where u1: "bs = u1 @ r1"
    and e1: "\<And>extra. p (u1 @ extra) = Some (a, extra)"
    and t1: "\<And>k. k < length u1 \<Longrightarrow> p (take k u1) = None"
    using reader_okD [OF p pa] by blast
  obtain u2 where u2: "r1 = u2 @ rest"
    and e2: "\<And>extra. f a (u2 @ extra) = Some (b, extra)"
    and t2: "\<And>k. k < length u2 \<Longrightarrow> f a (take k u2) = None"
    using reader_okD [OF f fa] by blast
  have "bs = (u1 @ u2) @ rest"
    by (simp add: u1 u2)
  moreover have "rbind p f ((u1 @ u2) @ extra) = Some (b, extra)" for extra
    using e1 [of "u2 @ extra"] e2 [of extra] by (simp add: rbind_def)
  moreover have "rbind p f (take k (u1 @ u2)) = None" if k: "k < length (u1 @ u2)" for k
  proof (cases "k < length u1")
    case True
    then show ?thesis
      using t1 [of k] by (simp add: rbind_def)
  next
    case False
    then have "take k (u1 @ u2) = u1 @ take (k - length u1) u2"
      by simp
    moreover have "f a (take (k - length u1) u2) = None"
      using False k by (intro t2) simp
    ultimately show ?thesis
      using e1 [of "take (k - length u1) u2"] by (simp add: rbind_def)
  qed
  ultimately show "\<exists>used. bs = used @ rest \<and>
      (\<forall>extra. rbind p f (used @ extra) = Some (b, extra)) \<and>
      (\<forall>k < length used. rbind p f (take k used) = None)"
    by blast
qed

lemma reader_ok_read_n: "reader_ok p \<Longrightarrow> reader_ok (read_n n p)"
  by (induction n) (simp_all add: reader_ok_rreturn reader_ok_rbind)

lemma reader_ok_read_u32: "reader_ok read_u32"
  unfolding read_u32_def by (intro reader_ok_rbind reader_ok_read_raw reader_ok_rreturn)

lemma reader_ok_read_u64: "reader_ok read_u64"
  unfolding read_u64_def by (intro reader_ok_rbind reader_ok_read_raw reader_ok_rreturn)

lemma reader_ok_read_vec3: "reader_ok read_vec3"
  unfolding read_vec3_def by (intro reader_ok_rbind reader_ok_read_raw reader_ok_rreturn)

lemma reader_ok_read_array: "reader_ok (read_array n sz dec)"
  unfolding read_array_def by (intro reader_ok_rbind reader_ok_read_raw reader_ok_rreturn)

lemma reader_ok_read_header: "reader_ok read_header"
  unfolding read_header_def
  by (intro reader_ok_rbind reader_ok_read_u32 reader_ok_read_u64 reader_ok_rreturn)

lemma reader_ok_read_submesh: "reader_ok read_submesh"
  unfolding read_submesh_def
  by (intro reader_ok_rbind reader_ok_read_u32 reader_ok_read_raw reader_ok_read_vec3
      reader_ok_rreturn)

lemma reader_ok_read_data: "reader_ok (read_data hdr)"
  unfolding read_data_def
  by (intro reader_ok_rbind reader_ok_read_array reader_ok_read_n reader_ok_read_submesh
      reader_ok_rreturn)

lemma read_u32_length: "read_u32 bs = Some (a, rest) \<Longrightarrow> length bs = 4 + length rest"
  by (auto simp add: read_u32_def rbind_def read_raw_def rreturn_def split: if_splits)

lemma read_u64_length: "read_u64 bs = Some (a, rest) \<Longrightarrow> length bs = 8 + length rest"
  by (auto simp add: read_u64_def rbind_def read_raw_def rreturn_def split: if_splits)

lemma read_header_length:
  assumes "read_header bs = Some (hdr, rest)"
  shows "length bs = 36 + length rest"
  using assms unfolding read_header_def rbind_def rreturn_def
  by (auto split: option.splits dest!: read_u32_length read_u64_length)


subsection \<open>Trailing bytes and truncation\<close>

lemma decode_cache_InrD:
  assumes "decode_cache bs h = Inr (hdr, d, rest)"
  shows "\<exists>r1. read_header bs = Some (hdr, r1) \<and> h_magic hdr = LIGHTMAP_CACHE_MAGIC \<and>
    h_version hdr = LIGHTMAP_CACHE_VERSION \<and> h_stored_hash hdr = h \<and>
    read_data hdr r1 = Some (d, rest)"
  using assms
  by (auto simp add: decode_cache_def split: option.splits if_splits)

lemma decode_cache_trailing:
  assumes "decode_cache bs h = Inr (hdr, d, rest)"
  shows "decode_cache (bs @ extra) h = Inr (hdr, d, rest @ extra)"
proof -
  obtain r1 where rh: "read_header bs = Some (hdr, r1)"
    and ok: "h_magic hdr = LIGHTMAP_CACHE_MAGIC" "h_version hdr = LIGHTMAP_CACHE_VERSION"
      "h_stored_hash hdr = h"
    and rd: "read_data hdr r1 = Some (d, rest)"
    using decode_cache_InrD [OF assms] by blast
  obtain u1 where u1: "bs = u1 @ r1"
    and e1: "\<And>extra. read_header (u1 @ extra) = Some (hdr, extra)"
    using reader_okD [OF reader_ok_read_header rh] by blast
  obtain u2 where u2: "r1 = u2 @ rest"
    and e2: "\<And>extra. read_data hdr (u2 @ extra) = Some (d, extra)"
    using reader_okD [OF reader_ok_read_data rd] by blast
  have "read_header (bs @ extra) = Some (hdr, u2 @ rest @ extra)"
    using e1 [of "u2 @ rest @ extra"] by (simp add: u1 u2)
  moreover have "read_data hdr (u2 @ rest @ extra) = Some (d, rest @ extra)"
    by (rule e2)
  ultimately show ?thesis
    by (simp add: decode_cache_def ok)
qed

lemma decode_cache_truncated:
  assumes "decode_cache record h = Inr (hdr, d, [])" and k: "k < length record"
  shows "decode_cache (take k record) h =
    Inl (if k < 36 then ReadErrorHeader else ReadErrorData)"
proof -
  obtain r1 where rh: "read_header record = Some (hdr, r1)"
    and ok: "h_magic hdr = LIGHTMAP_CACHE_MAGIC" "h_version hdr = LIGHTMAP_CACHE_VERSION"
      "h_stored_hash hdr = h"
    and rd: "read_data hdr r1 = Some (d, [])"
    using decode_cache_InrD [OF assms(1)] by blast
  obtain u1 where u1: "record = u1 @ r1"
    and e1: "\<And>extra. read_header (u1 @ extra) = Some (hdr, extra)"
    and t1: "\<And>k. k < length u1 \<Longrightarrow> read_header (take k u1) = None"
    using reader_okD [OF reader_ok_read_header rh] by blast
  obtain u2 where u2: "r1 = u2 @ []"
    and t2: "\<And>k. k < length u2 \<Longrightarrow> read_data hdr (take k u2) = None"
    using reader_okD [OF reader_ok_read_data rd] by blast
  have l1: "length u1 = 36"
    using read_header_length [OF rh] by (simp add: u1)
  show ?thesis
  proof (cases "k < 36")
    case True
    then have "read_header (take k record) = None"
      using t1 [of k] by (simp add: u1 l1)
    with True show ?thesis
      by (simp add: decode_cache_def)
  next
    case False
    then have tk: "take k record = u1 @ take (k - 36) r1"
      by (simp add: u1 l1)
    have "k - 36 < length u2"
      using k False u2 by (simp add: u1 l1)
    then have "read_data hdr (take (k - 36) r1) = None"
      using t2 [of "k - 36"] u2 by simp
    with False show ?thesis
      by (simp add: decode_cache_def tk e1 ok)
  qed
qed

text \<open>
  Claim C10. \<open>load_lightmap_cache\<close> never looks at what follows the record: whenever it
  succeeds on some bytes it succeeds with the same result on these bytes followed by any
  others, and on the saved bytes of a mesh followed by any others it adopts exactly that
  mesh's geometry and atlas dimensions.
\<close>

theorem load_lightmap_cache_ignores_trailing_bytes:
  "(load_lightmap_cache m (Some bs) h = (Inr (), m') \<longrightarrow>
      load_lightmap_cache m (Some (bs @ extra)) h = (Inr (), m')) \<and>
   (cache_representable m1 \<longrightarrow>
      load_lightmap_cache m (Some (spec_cache_layout m1 h @ extra)) h =
        (Inr (),
         m\<lparr> m_vertices := m_vertices m1, m_indices := m_indices m1,
            m_sub_meshes := m_sub_meshes m1, m_lightmap_width := m_lightmap_width m1,
            m_lightmap_height := m_lightmap_height m1, m_has_lightmap_uvs := True \<rparr>))"
proof (intro conjI impI)
  assume l: "load_lightmap_cache m (Some bs) h = (Inr (), m')"
  then obtain hdr d rest where d: "decode_cache bs h = Inr (hdr, d, rest)"
    by (auto simp add: load_lightmap_cache_def split: sum.splits)
  show "load_lightmap_cache m (Some (bs @ extra)) h = (Inr (), m')"
    using l by (simp add: load_lightmap_cache_def d decode_cache_trailing [OF d])
next
  assume "cache_representable m1"
  then show "load_lightmap_cache m (Some (spec_cache_layout m1 h @ extra)) h =
        (Inr (),
         m\<lparr> m_vertices := m_vertices m1, m_indices := m_indices m1,
            m_sub_meshes := m_sub_meshes m1, m_lightmap_width := m_lightmap_width m1,
            m_lightmap_height := m_lightmap_height m1, m_has_lightmap_uvs := True \<rparr>)"
    by (rule load_lightmap_cache_bytes)
qed

theorem load_lightmap_cache_ignores_trailing_bytes_witness:
  "load_lightmap_cache empty_mesh (Some (spec_cache_layout tri_mesh 5)) 5 =
     (Inr (), tri_mesh\<lparr> m_has_lightmap_uvs := True \<rparr>) \<and>
   load_lightmap_cache empty_mesh (Some (spec_cache_layout tri_mesh 5 @ [0xDE, 0xAD])) 5 =
     (Inr (), tri_mesh\<lparr> m_has_lightmap_uvs := True \<rparr>)"
proof -
  have a: "load_lightmap_cache empty_mesh (Some (spec_cache_layout tri_mesh 5)) 5 =
     (Inr (), tri_mesh\<lparr> m_has_lightmap_uvs := True \<rparr>)"
    using load_lightmap_cache_bytes [OF cache_representable_tri_mesh, of empty_mesh 5 "[]"]
    by (simp add: empty_mesh_def tri_mesh_def)
  from a load_lightmap_cache_ignores_trailing_bytes
    [of empty_mesh "spec_cache_layout tri_mesh 5" 5 "tri_mesh\<lparr> m_has_lightmap_uvs := True \<rparr>"
      "[0xDE, 0xAD]" tri_mesh]
  show ?thesis by blast
qed

lemma length_header_bytes: "length (spec_header_layout hdr) = 36"
  by (simp add: spec_header_layout_def)

lemma length_cache_bytes_tri_mesh: "length (spec_cache_layout tri_mesh h) = 387"
  by (simp add: spec_cache_layout_def length_header_bytes tri_mesh_def tri_submesh_def
      spec_submesh_layout_def)

subsection \<open>Validation of the header\<close>

text \<open>
  Claim C3. \<open>load_lightmap_cache\<close> reads the header first and returns \<open>false\<close> when it is
  short; then, in this order, it returns \<open>false\<close> when the magic is not the format's, when
  the version is not the one version it knows, and when the stored hash is not the
  expected hash, each time leaving the mesh as it was. It returns \<open>true\<close> only when all
  three agree. The header it reads from bytes laid out as the format says is that header.
\<close>

theorem load_lightmap_cache_validation:
  "(read_header bs = None \<longrightarrow>
      load_lightmap_cache m (Some bs) h = (Inl ReadErrorHeader, m)) \<and>
   (read_header bs = Some (hdr, rest) \<and> h_magic hdr \<noteq> LIGHTMAP_CACHE_MAGIC \<longrightarrow>
      load_lightmap_cache m (Some bs) h = (Inl InvalidMagic, m)) \<and>
   (read_header bs = Some (hdr, rest) \<and> h_magic hdr = LIGHTMAP_CACHE_MAGIC \<and>
    h_version hdr \<noteq> LIGHTMAP_CACHE_VERSION \<longrightarrow>
      load_lightmap_cache m (Some bs) h = (Inl VersionMismatch, m)) \<and>
   (read_header bs = Some (hdr, rest) \<and> h_magic hdr = LIGHTMAP_CACHE_MAGIC \<and>
    h_version hdr = LIGHTMAP_CACHE_VERSION \<and> h_stored_hash hdr \<noteq> h \<longrightarrow>
      load_lightmap_cache m (Some bs) h = (Inl HashMismatch, m)) \<and>
   (fst (load_lightmap_cache m (Some bs) h) = Inr () \<longrightarrow>
      (\<exists>hdr rest. read_header bs = Some (hdr, rest) \<and> h_magic hdr = LIGHTMAP_CACHE_MAGIC \<and>
         h_version hdr = LIGHTMAP_CACHE_VERSION \<and> h_stored_hash hdr = h)) \<and>
   read_header (spec_header_layout hdr' @ rest') = Some (hdr', rest')"
  (is "?A \<and> ?B \<and> ?C \<and> ?D \<and> ?E \<and> ?F")
proof -
  have a: ?A and b: ?B and c: ?C and d: ?D
    by (simp_all add: load_lightmap_cache_def decode_cache_def)
  have e: ?E
    by (auto simp add: load_lightmap_cache_def decode_cache_def
        split: option.splits if_splits sum.splits)
  have f: ?F
    by (rule read_header_bytes)
  show ?thesis
    by (rule conjI [OF a conjI [OF b conjI [OF c conjI [OF d conjI [OF e f]]]]])
qed

lemma load_empty_record:
  "load_lightmap_cache tri_mesh (Some (spec_header_layout good_header)) 5 =
     (Inr (), tri_mesh\<lparr> m_vertices := [], m_indices := [], m_sub_meshes := [],
        m_lightmap_width := 64, m_lightmap_height := 32, m_has_lightmap_uvs := True \<rparr>)"
proof -
  have "read_header (spec_header_layout good_header @ []) = Some (good_header, [])"
    by (rule read_header_bytes)
  then have r: "read_header (spec_header_layout good_header) = Some (good_header, [])"
    by simp
  have "read_data good_header [] = Some (([], [], []), [])"
    by (simp add: read_data_def read_array_def rbind_def read_raw_def rreturn_def good_header_def)
  with r show ?thesis
    by (simp add: load_lightmap_cache_def decode_cache_def)
      (simp add: good_header_def LIGHTMAP_CACHE_MAGIC_def LIGHTMAP_CACHE_VERSION_def)
qed

theorem load_lightmap_cache_validation_witness:
  "load_lightmap_cache tri_mesh
     (Some (spec_header_layout (good_header\<lparr> h_magic := 0x4C4D4151, h_version := 2, h_stored_hash := 6 \<rparr>))) 5 =
     (Inl InvalidMagic, tri_mesh) \<and>
   load_lightmap_cache tri_mesh
     (Some (spec_header_layout (good_header\<lparr> h_version := 2, h_stored_hash := 6 \<rparr>))) 5 =
     (Inl VersionMismatch, tri_mesh) \<and>
   load_lightmap_cache tri_mesh
     (Some (spec_header_layout (good_header\<lparr> h_stored_hash := 6 \<rparr>))) 5 =
     (Inl HashMismatch, tri_mesh) \<and>
   fst (load_lightmap_cache tri_mesh (Some (spec_header_layout good_header)) 5) = Inr ()"
proof -
  have r: "read_header (spec_header_layout x) = Some (x, [])" for x
    using read_header_bytes [of x "[]"] by simp
  have "load_lightmap_cache tri_mesh
     (Some (spec_header_layout (good_header\<lparr> h_magic := 0x4C4D4151, h_version := 2, h_stored_hash := 6 \<rparr>))) 5 =
     (Inl InvalidMagic, tri_mesh)"
    using load_lightmap_cache_validation
      [of "spec_header_layout (good_header\<lparr> h_magic := 0x4C4D4151, h_version := 2, h_stored_hash := 6 \<rparr>)"
        tri_mesh 5 "good_header\<lparr> h_magic := 0x4C4D4151, h_version := 2, h_stored_hash := 6 \<rparr>" "[]"]
    by (simp add: r good_header_def LIGHTMAP_CACHE_MAGIC_def)
  moreover have "load_lightmap_cache tri_mesh
     (Some (spec_header_layout (good_header\<lparr> h_version := 2, h_stored_hash := 6 \<rparr>))) 5 =
     (Inl VersionMismatch, tri_mesh)"
    using load_lightmap_cache_validation
      [of "spec_header_layout (good_header\<lparr> h_version := 2, h_stored_hash := 6 \<rparr>)"
        tri_mesh 5 "good_header\<lparr> h_version := 2, h_stored_hash := 6 \<rparr>" "[]"]
    by (simp add: r good_header_def LIGHTMAP_CACHE_MAGIC_def LIGHTMAP_CACHE_VERSION_def)
  moreover have "load_lightmap_cache tri_mesh
     (Some (spec_header_layout (good_header\<lparr> h_stored_hash := 6 \<rparr>))) 5 =
     (Inl HashMismatch, tri_mesh)"
    using load_lightmap_cache_validation
      [of "spec_header_layout (good_header\<lparr> h_stored_hash := 6 \<rparr>)"
        tri_mesh 5 "good_header\<lparr> h_stored_hash := 6 \<rparr>" "[]"]
    by (simp add: r good_header_def LIGHTMAP_CACHE_MAGIC_def LIGHTMAP_CACHE_VERSION_def)
  moreover have "fst (load_lightmap_cache tri_mesh (Some (spec_header_layout good_header)) 5) = Inr ()"
    by (simp add: load_empty_record)
  ultimately show ?thesis
    by blast
qed

section \<open>Exits other than a return\<close>

subsection \<open>Whenever the loader returns, it returns what the readers say\<close>


lemma read_submesh_split: "read_submesh = rbind read_u32 read_submesh_fields"
  unfolding read_submesh_def
  by (rule arg_cong [where f = "rbind read_u32"]) (rule ext, simp add: read_submesh_fields_def)

lemma read_submeshes_run_failed:
  "read_submeshes_run a n None acc = (if n = 0 then Returns None else Undefined_behaviour)"
  by (cases n) (simp_all add: on_stream_def)

lemma read_submeshes_run_Returns:
  "read_submeshes_run a n (Some bs) acc = Returns x \<Longrightarrow>
   x = (case read_n n read_submesh bs of
          None \<Rightarrow> None
        | Some (sms, rest) \<Rightarrow> Some (acc @ sms, rest))"
proof (induction n arbitrary: bs acc)
  case 0
  then show ?case by (simp add: rreturn_def)
next
  case (Suc n)
  show ?case
  proof (cases "read_u32 bs")
    case None
    with Suc.prems show ?thesis by (simp add: on_stream_def)
  next
    case (Some p)
    obtain name_len rest where p: "p = (name_len, rest)" by (cases p)
    show ?thesis
    proof (cases "read_submesh_fields name_len rest")
      case None
      with Suc.prems Some p have "x = None"
        by (simp add: on_stream_def read_submeshes_run_failed split: if_splits)
      moreover have "read_submesh bs = None"
        by (simp add: read_submesh_split rbind_def Some p None)
      ultimately show ?thesis
        by (simp add: rbind_def)
    next
      case (Some q)
      obtain sm rest' where q: "q = (sm, rest')" by (cases q)
      have rs: "read_submesh bs = Some (sm, rest')"
        using \<open>read_u32 bs = Some p\<close> p Some q by (simp add: read_submesh_split rbind_def)
      from Suc.prems \<open>read_u32 bs = Some p\<close> p Some q
      have "read_submeshes_run a n (Some rest') (acc @ [sm]) = Returns x"
        by (simp add: on_stream_def split: if_splits)
      then have "x = (case read_n n read_submesh rest' of
          None \<Rightarrow> None
        | Some (sms, rest) \<Rightarrow> Some ((acc @ [sm]) @ sms, rest))"
        by (rule Suc.IH)
      then show ?thesis
        by (simp add: rbind_def rs rreturn_def split: option.splits)
    qed
  qed
qed

lemma read_data_run_Returns:
  assumes "read_data_run a hdr rest = Returns x"
  shows "x = read_data hdr rest"
proof -
  let ?r1 = "read_array (h_vertex_count hdr) sizeof_Vertex Vertex_of_bytes rest"
  let ?r2 = "on_stream (read_array (h_index_count hdr) 4 of_le32) (map_option snd ?r1)"
  let ?n = "unat (h_submesh_count hdr)"
  from assms obtain y where loop: "read_submeshes_run a ?n (map_option snd ?r2) [] = Returns y"
    and x: "x = (case y of
         None \<Rightarrow> None
       | Some (submeshes, rest') \<Rightarrow>
           (case (?r1, ?r2) of
              (Some (vertices, _), Some (indices, _)) \<Rightarrow>
                Some ((vertices, indices, submeshes), rest')
            | _ \<Rightarrow> None))"
    by (auto simp add: read_data_run_def Let_def split: if_splits outcome.splits option.splits)
  show ?thesis
  proof (cases ?r1)
    case None
    then have "y = None"
      using loop by (simp add: on_stream_def read_submeshes_run_failed split: if_splits)
    with x None show ?thesis
      by (simp add: read_data_def rbind_def)
  next
    case (Some p1)
    obtain vs rest1 where p1: "p1 = (vs, rest1)" by (cases p1)
    show ?thesis
    proof (cases "read_array (h_index_count hdr) 4 of_le32 rest1")
      case None
      then have "y = None"
        using loop Some p1 by (simp add: on_stream_def read_submeshes_run_failed split: if_splits)
      with x Some p1 None show ?thesis
        by (simp add: read_data_def rbind_def)
    next
      case (Some p2)
      obtain idxs rest2 where p2: "p2 = (idxs, rest2)" by (cases p2)
      have "read_submeshes_run a ?n (Some rest2) [] = Returns y"
        using loop \<open>?r1 = Some p1\<close> p1 Some p2 by (simp add: on_stream_def)
      then have "y = (case read_n ?n read_submesh rest2 of
          None \<Rightarrow> None
        | Some (sms, rest) \<Rightarrow> Some ([] @ sms, rest))"
        by (rule read_submeshes_run_Returns)
      with x \<open>?r1 = Some p1\<close> p1 Some p2 show ?thesis
        by (simp add: read_data_def rbind_def on_stream_def rreturn_def split: option.splits)
    qed
  qed
qed

lemma load_lightmap_cache_run_Returns:
  assumes "load_lightmap_cache_run a m file h = Returns r"
  shows "r = load_lightmap_cache m file h"
proof (cases "file")
  case None
  with assms show ?thesis
    by (simp add: load_lightmap_cache_run_def load_lightmap_cache_def)
next
  case (Some bs)
  show ?thesis
  proof (cases "read_header bs")
    case None
    with assms Some show ?thesis
      by (simp add: load_lightmap_cache_run_def load_lightmap_cache_def decode_cache_def)
  next
    case (Some p)
    obtain hdr rest where p: "p = (hdr, rest)" by (cases p)
    show ?thesis
    proof (cases "h_magic hdr = LIGHTMAP_CACHE_MAGIC \<and> h_version hdr = LIGHTMAP_CACHE_VERSION \<and>
        h_stored_hash hdr = h")
      case False
      with assms \<open>file = Some bs\<close> Some p show ?thesis
        by (auto simp add: load_lightmap_cache_run_def load_lightmap_cache_def decode_cache_def)
    next
      case True
      with assms \<open>file = Some bs\<close> Some p obtain x where
        x: "read_data_run a hdr rest = Returns x"
        by (auto simp add: load_lightmap_cache_run_def split: outcome.splits)
      then have "x = read_data hdr rest"
        by (rule read_data_run_Returns)
      with assms \<open>file = Some bs\<close> Some p True x show ?thesis
        by (auto simp add: load_lightmap_cache_run_def load_lightmap_cache_def decode_cache_def
            split: option.splits)
    qed
  qed
qed

subsection \<open>Truncated records\<close>

lemma read_header_short: "length bs < 36 \<Longrightarrow> read_header bs = None"
proof (cases "read_header bs")
  case None
  then show ?thesis by simp
next
  case (Some p)
  assume "length bs < 36"
  moreover obtain hdr rest where "p = (hdr, rest)" by (cases p)
  ultimately show ?thesis
    using read_header_length [of bs hdr rest] Some by simp
qed

lemma load_lightmap_cache_run_truncated_Returns:
  assumes "decode_cache record h = Inr (hdr, d, [])" and "k < length record"
    and "load_lightmap_cache_run a m (Some (take k record)) h = Returns r"
  shows "r = (Inl (if k < 36 then ReadErrorHeader else ReadErrorData), m)"
  using load_lightmap_cache_run_Returns [OF assms(3)] decode_cache_truncated [OF assms(1,2)]
  by (simp add: load_lightmap_cache_def)

lemma tri_record_split:
  "spec_cache_layout tri_mesh 5 =
     spec_header_layout (cache_header_of tri_mesh 5) @
     concat (map Vertex_bytes (m_vertices tri_mesh)) @
     concat (map le32 (m_indices tri_mesh)) @
     concat (map spec_submesh_layout (m_sub_meshes tri_mesh))"
  by (simp add: spec_cache_layout_def)

lemma tri_header_valid:
  "h_magic (cache_header_of tri_mesh 5) = LIGHTMAP_CACHE_MAGIC"
  "h_version (cache_header_of tri_mesh 5) = LIGHTMAP_CACHE_VERSION"
  "h_stored_hash (cache_header_of tri_mesh 5) = 5"
  "h_vertex_count (cache_header_of tri_mesh 5) = 3"
  "h_index_count (cache_header_of tri_mesh 5) = 3"
  "h_submesh_count (cache_header_of tri_mesh 5) = 1"
  by (simp_all add: cache_header_of_def tri_mesh_def)

lemma grants_any_machine [simp]: "grants any_machine r"
  by (simp add: grants_def any_machine_def)

lemma read_array_short:
  "int (length bs) < sint count * int sz \<Longrightarrow> read_array count sz dec bs = None"
  by (simp add: read_array_def rbind_def read_raw_def)

lemma length_take_le: "length (take n xs) \<le> n"
  by simp

lemma load_lightmap_cache_run_data:
  assumes "h_magic hdr = LIGHTMAP_CACHE_MAGIC" and "h_version hdr = LIGHTMAP_CACHE_VERSION"
    and "h_stored_hash hdr = h"
  shows "load_lightmap_cache_run a m (Some (spec_header_layout hdr @ rest)) h =
    (case read_data_run a hdr rest of
       Throws_bad_alloc \<Rightarrow> Throws_bad_alloc
     | Undefined_behaviour \<Rightarrow> Undefined_behaviour
     | Returns None \<Rightarrow> Returns (Inl ReadErrorData, m)
     | Returns (Some ((vertices, indices, submeshes), rest')) \<Rightarrow>
         Returns (Inr (),
           m\<lparr> m_vertices := vertices, m_indices := indices, m_sub_meshes := submeshes,
              m_lightmap_width := h_lightmap_width hdr,
              m_lightmap_height := h_lightmap_height hdr, m_has_lightmap_uvs := True \<rparr>))"
  by (simp add: load_lightmap_cache_run_def read_header_bytes assms)

lemma read_data_run_vertices_short:
  assumes "grants a (Alloc_Vertices (unat (h_vertex_count hdr)))"
    and "grants a (Alloc_Indices (unat (h_index_count hdr)))"
    and "grants a (Alloc_SubMeshes (unat (h_submesh_count hdr)))"
    and "read_array (h_vertex_count hdr) sizeof_Vertex Vertex_of_bytes rest = None"
  shows "read_data_run a hdr rest =
    (if unat (h_submesh_count hdr) = 0 then Returns None else Undefined_behaviour)"
  by (simp add: read_data_run_def Let_def assms on_stream_def read_submeshes_run_failed)

lemma read_data_run_indices_short:
  assumes "grants a (Alloc_Vertices (unat (h_vertex_count hdr)))"
    and "grants a (Alloc_Indices (unat (h_index_count hdr)))"
    and "grants a (Alloc_SubMeshes (unat (h_submesh_count hdr)))"
    and "read_array (h_vertex_count hdr) sizeof_Vertex Vertex_of_bytes rest = Some (vs, rest1)"
    and "read_array (h_index_count hdr) 4 of_le32 rest1 = None"
  shows "read_data_run a hdr rest =
    (if unat (h_submesh_count hdr) = 0 then Returns None else Undefined_behaviour)"
  by (simp add: read_data_run_def Let_def assms on_stream_def read_submeshes_run_failed)

lemma read_data_run_last_submesh_short:
  assumes "grants a (Alloc_Vertices (unat (h_vertex_count hdr)))"
    and "grants a (Alloc_Indices (unat (h_index_count hdr)))"
    and "grants a (Alloc_SubMeshes (unat (h_submesh_count hdr)))"
    and "read_array (h_vertex_count hdr) sizeof_Vertex Vertex_of_bytes rest = Some (vs, rest1)"
    and "read_array (h_index_count hdr) 4 of_le32 rest1 = Some (idxs, rest2)"
    and "unat (h_submesh_count hdr) = 1"
    and "read_u32 rest2 = Some (name_len, rest3)"
    and "grants a (Alloc_String (unat name_len))"
    and "read_submesh_fields name_len rest3 = None"
  shows "read_data_run a hdr rest = Returns None"
  using assms by (simp add: read_data_run_def Let_def on_stream_def)

lemma read_vec3_length: "read_vec3 bs = Some (a, rest) \<Longrightarrow> length bs = 12 + length rest"
  by (auto simp add: read_vec3_def rbind_def read_raw_def rreturn_def split: if_splits)

lemma read_raw_length:
  "read_raw n bs = Some (a, rest) \<Longrightarrow> length bs = nat n + length rest"
  by (auto simp add: read_raw_def split: if_splits)

lemma read_submesh_fields_length:
  assumes "read_submesh_fields name_len bs = Some (sm, rest)"
  shows "length bs = unat name_len + 44 + length rest"
  using assms unfolding read_submesh_fields_def rbind_def rreturn_def
  by (auto split: option.splits
      dest!: read_u32_length read_vec3_length read_raw_length)

lemma read_submesh_fields_short:
  "length bs < unat name_len + 44 \<Longrightarrow> read_submesh_fields name_len bs = None"
proof (cases "read_submesh_fields name_len bs")
  case None
  then show ?thesis by simp
next
  case (Some p)
  assume "length bs < unat name_len + 44"
  moreover obtain sm rest where "p = (sm, rest)" by (cases p)
  ultimately show ?thesis
    using read_submesh_fields_length [of name_len bs sm rest] Some by simp
qed

lemma tri_vertices_read:
  "read_array (h_vertex_count (cache_header_of tri_mesh 5)) sizeof_Vertex Vertex_of_bytes
     (concat (map Vertex_bytes (m_vertices tri_mesh)) @ rest) = Some (m_vertices tri_mesh, rest)"
  unfolding cache_header_of_def cache_header.simps
  by (rule read_array_bytes) (simp_all add: sizeof_Vertex_def tri_mesh_def)

lemma tri_indices_read:
  "read_array (h_index_count (cache_header_of tri_mesh 5)) 4 of_le32
     (concat (map le32 (m_indices tri_mesh)) @ rest) = Some (m_indices tri_mesh, rest)"
  unfolding cache_header_of_def cache_header.simps
  by (rule read_array_bytes) (simp_all add: tri_mesh_def)

lemma run_tri_cut_in_vertices:
  assumes "length rest < 288"
  shows "load_lightmap_cache_run any_machine m
     (Some (spec_header_layout (cache_header_of tri_mesh 5) @ rest)) 5 = Undefined_behaviour"
proof -
  have "read_array (h_vertex_count (cache_header_of tri_mesh 5)) sizeof_Vertex Vertex_of_bytes
      rest = None"
    using assms by (intro read_array_short) (simp add: tri_header_valid sizeof_Vertex_def)
  then have "read_data_run any_machine (cache_header_of tri_mesh 5) rest = Undefined_behaviour"
    by (simp add: read_data_run_vertices_short tri_header_valid)
  then show ?thesis
    by (simp add: load_lightmap_cache_run_data tri_header_valid)
qed

lemma run_tri_cut_in_indices:
  assumes "length rest < 12"
  shows "load_lightmap_cache_run any_machine m
     (Some (spec_header_layout (cache_header_of tri_mesh 5) @
        concat (map Vertex_bytes (m_vertices tri_mesh)) @ rest)) 5 = Undefined_behaviour"
proof -
  have "read_array (h_index_count (cache_header_of tri_mesh 5)) 4 of_le32 rest = None"
    using assms by (intro read_array_short) (simp add: tri_header_valid)
  then have "read_data_run any_machine (cache_header_of tri_mesh 5)
      (concat (map Vertex_bytes (m_vertices tri_mesh)) @ rest) = Undefined_behaviour"
    using read_data_run_indices_short
      [OF grants_any_machine grants_any_machine grants_any_machine tri_vertices_read]
    by (simp add: tri_header_valid)
  then show ?thesis
    by (simp add: load_lightmap_cache_run_data tri_header_valid)
qed

lemma run_tri_cut_in_submesh:
  assumes "length rest < 47"
  shows "load_lightmap_cache_run any_machine m
     (Some (spec_header_layout (cache_header_of tri_mesh 5) @
        concat (map Vertex_bytes (m_vertices tri_mesh)) @
        concat (map le32 (m_indices tri_mesh)) @ le32 3 @ rest)) 5 =
     Returns (Inl ReadErrorData, m)"
proof -
  have f: "read_submesh_fields 3 rest = None"
    using assms by (intro read_submesh_fields_short) simp
  have "read_data_run any_machine (cache_header_of tri_mesh 5)
      (concat (map Vertex_bytes (m_vertices tri_mesh)) @
        concat (map le32 (m_indices tri_mesh)) @ le32 3 @ rest) = Returns None"
    by (rule read_data_run_last_submesh_short
        [OF grants_any_machine grants_any_machine grants_any_machine tri_vertices_read
          tri_indices_read _ read_u32_le32 grants_any_machine f])
      (simp add: tri_header_valid)
  then show ?thesis
    by (simp add: load_lightmap_cache_run_data tri_header_valid)
qed

lemma tri_record_bytes:
  "spec_cache_layout tri_mesh 5 =
     spec_header_layout (cache_header_of tri_mesh 5) @
     concat (map Vertex_bytes (m_vertices tri_mesh)) @
     concat (map le32 (m_indices tri_mesh)) @
     le32 3 @ [0x74, 0x72, 0x69] @ le32 0 @ le32 3 @ le32 0 @ le32 0 @ le32 3 @
     vec3_bytes (Vec3 3 3 3) @ vec3_bytes (Vec3 1 1 1)"
  by (simp add: spec_cache_layout_def tri_mesh_def tri_submesh_def spec_submesh_layout_def)

lemma length_tri_vertex_bytes: "length (concat (map Vertex_bytes (m_vertices tri_mesh))) = 288"
  by (simp add: tri_mesh_def)

lemma length_tri_index_bytes: "length (concat (map le32 (m_indices tri_mesh))) = 12"
  by (simp add: tri_mesh_def)

lemma run_cut_100:
  "load_lightmap_cache_run any_machine tri_mesh
     (Some (take 100 (spec_cache_layout tri_mesh 5))) 5 = Undefined_behaviour"
proof -
  let ?data = "concat (map Vertex_bytes (m_vertices tri_mesh)) @
     concat (map le32 (m_indices tri_mesh)) @
     concat (map spec_submesh_layout (m_sub_meshes tri_mesh))"
  have t: "take 100 (spec_cache_layout tri_mesh 5) =
      spec_header_layout (cache_header_of tri_mesh 5) @ take 64 ?data"
    by (simp add: tri_record_split length_header_bytes)
  have "length (take 64 ?data) < 288"
    using length_take_le [of 64 ?data] by linarith
  then show ?thesis
    unfolding t by (rule run_tri_cut_in_vertices)
qed

lemma run_cut_330:
  "load_lightmap_cache_run any_machine tri_mesh
     (Some (take 330 (spec_cache_layout tri_mesh 5))) 5 = Undefined_behaviour"
proof -
  let ?tail = "concat (map le32 (m_indices tri_mesh)) @
     concat (map spec_submesh_layout (m_sub_meshes tri_mesh))"
  have t: "take 330 (spec_cache_layout tri_mesh 5) =
      spec_header_layout (cache_header_of tri_mesh 5) @
      concat (map Vertex_bytes (m_vertices tri_mesh)) @ take 6 ?tail"
    by (simp add: tri_record_split length_header_bytes length_tri_vertex_bytes)
  have "length (take 6 ?tail) < 12"
    using length_take_le [of 6 ?tail] by linarith
  then show ?thesis
    unfolding t by (rule run_tri_cut_in_indices)
qed

lemma run_cut_386:
  "load_lightmap_cache_run any_machine tri_mesh
     (Some (take 386 (spec_cache_layout tri_mesh 5))) 5 = Returns (Inl ReadErrorData, tri_mesh)"
proof -
  let ?fields = "[0x74, 0x72, 0x69] @ le32 0 @ le32 3 @ le32 0 @ le32 0 @ le32 3 @
     vec3_bytes (Vec3 3 3 3) @ vec3_bytes (Vec3 1 1 1)"
  have t: "take 386 (spec_cache_layout tri_mesh 5) =
      spec_header_layout (cache_header_of tri_mesh 5) @
      concat (map Vertex_bytes (m_vertices tri_mesh)) @
      concat (map le32 (m_indices tri_mesh)) @ le32 3 @ take 46 ?fields"
    unfolding tri_record_bytes
    by (simp add: length_header_bytes length_tri_vertex_bytes length_tri_index_bytes)
  have "length (take 46 ?fields) < 47"
    using length_take_le [of 46 ?fields] by linarith
  then show ?thesis
    unfolding t by (rule run_tri_cut_in_submesh)
qed

lemma run_huge_header:
  "load_lightmap_cache_run small_machine tri_mesh (Some (spec_header_layout huge_header)) 5 =
     Throws_bad_alloc"
proof -
  have "read_header (spec_header_layout huge_header @ []) = Some (huge_header, [])"
    by (rule read_header_bytes)
  then have r: "read_header (spec_header_layout huge_header) = Some (huge_header, [])"
    by simp
  have g: "\<not> grants small_machine (Alloc_Vertices (unat (h_vertex_count huge_header)))"
    by (simp add: grants_def small_machine_def huge_header_def)
  show ?thesis
    unfolding load_lightmap_cache_run_def
    by (simp add: r read_data_run_def g)
      (simp add: huge_header_def LIGHTMAP_CACHE_MAGIC_def LIGHTMAP_CACHE_VERSION_def)
qed

lemma run_cut_35:
  "load_lightmap_cache_run any_machine tri_mesh
     (Some (take 35 (spec_cache_layout tri_mesh 5))) 5 = Returns (Inl ReadErrorHeader, tri_mesh)"
proof -
  have "read_header (take 35 (spec_cache_layout tri_mesh 5)) = None"
    by (rule read_header_short) simp
  then show ?thesis
    by (simp add: load_lightmap_cache_run_def)
qed

subsection \<open>When the loader returns\<close>

lemma load_lightmap_cache_run_no_file:
  "load_lightmap_cache_run a m None h = Returns (Inl NotOpen, m)"
  by (simp add: load_lightmap_cache_run_def)


lemma load_lightmap_cache_run_rejected:
  assumes "read_header bs = Some (hdr, rest)"
    and "h_magic hdr \<noteq> LIGHTMAP_CACHE_MAGIC \<or> h_version hdr \<noteq> LIGHTMAP_CACHE_VERSION \<or>
      h_stored_hash hdr \<noteq> h"
  shows "load_lightmap_cache_run a m (Some bs) h =
    Returns (Inl (if h_magic hdr \<noteq> LIGHTMAP_CACHE_MAGIC then InvalidMagic
                  else if h_version hdr \<noteq> LIGHTMAP_CACHE_VERSION then VersionMismatch
                  else HashMismatch), m)"
  using assms by (auto simp add: load_lightmap_cache_run_def)

lemma read_submesh_fields_bytes:
  assumes "length (name sm) < 2 ^ 32"
  shows "read_submesh_fields (of_nat (length (name sm)))
      (name sm @ le32 (mat_idx sm) @ le32 (index_count sm) @ le32 (base_vertex sm) @
       le32 (base_index sm) @ le32 (vertex_count sm) @ vec3_bytes (max_extents sm) @
       vec3_bytes (min_extents sm) @ rest) = Some (sm, rest)"
  using read_submesh_bytes [OF assms, of rest]
  by (simp add: read_submesh_split spec_submesh_layout_def rbind_def)

lemma read_submeshes_run_step:
  assumes "length (name sm) < 2 ^ 32" and "grants a (Alloc_String (length (name sm)))"
  shows "read_submeshes_run a (Suc n) (Some (spec_submesh_layout sm @ rest)) acc =
    read_submeshes_run a n (Some rest) (acc @ [sm])"
  using assms(2)
  by (simp add: on_stream_def spec_submesh_layout_def unat_of_nat_small [OF assms(1)]
      read_submesh_fields_bytes [OF assms(1)])

lemma read_submeshes_run_bytes:
  assumes "list_all (\<lambda>sm. length (name sm) < 2 ^ 32) sms" and "\<And>r. grants a r"
  shows "read_submeshes_run a (length sms) (Some (concat (map spec_submesh_layout sms) @ rest)) acc =
    Returns (Some (acc @ sms, rest))"
  using assms(1)
proof (induction sms arbitrary: acc)
  case Nil
  then show ?case by simp
next
  case (Cons sm sms)
  then have n: "length (name sm) < 2 ^ 32" and ns: "list_all (\<lambda>sm. length (name sm) < 2 ^ 32) sms"
    by simp_all
  have "read_submeshes_run a (length (sm # sms))
      (Some (concat (map spec_submesh_layout (sm # sms)) @ rest)) acc =
    read_submeshes_run a (Suc (length sms))
      (Some (spec_submesh_layout sm @ concat (map spec_submesh_layout sms) @ rest)) acc"
    by simp
  also have "\<dots> = read_submeshes_run a (length sms)
      (Some (concat (map spec_submesh_layout sms) @ rest)) (acc @ [sm])"
    by (rule read_submeshes_run_step [OF n assms(2)])
  also have "\<dots> = Returns (Some ((acc @ [sm]) @ sms, rest))"
    by (rule Cons.IH [OF ns])
  finally show ?case by simp
qed

lemma read_data_run_bytes:
  assumes "cache_representable m" and "\<And>r. grants a r"
  shows "read_data_run a (cache_header_of m h)
      (concat (map Vertex_bytes (m_vertices m)) @ concat (map le32 (m_indices m)) @
       concat (map spec_submesh_layout (m_sub_meshes m)) @ rest) =
    Returns (Some ((m_vertices m, m_indices m, m_sub_meshes m), rest))"
proof -
  have v: "length (m_vertices m) < 2 ^ 31" and i: "length (m_indices m) < 2 ^ 31"
    and s: "length (m_sub_meshes m) < 2 ^ 32"
    and n: "list_all (\<lambda>sm. length (name sm) < 2 ^ 32) (m_sub_meshes m)"
    using assms(1) unfolding cache_representable_def by blast+
  have rv: "read_array (of_nat (length (m_vertices m))) sizeof_Vertex Vertex_of_bytes
      (concat (map Vertex_bytes (m_vertices m)) @ r) = Some (m_vertices m, r)" for r
    using v by (intro read_array_bytes) (simp_all add: sizeof_Vertex_def)
  have ri: "read_array (of_nat (length (m_indices m))) 4 of_le32
      (concat (map le32 (m_indices m)) @ r) = Some (m_indices m, r)" for r
    using i by (intro read_array_bytes) simp_all
  have rs: "read_submeshes_run a (unat (of_nat (length (m_sub_meshes m)) :: u32))
      (Some (concat (map spec_submesh_layout (m_sub_meshes m)) @ r)) [] =
      Returns (Some (m_sub_meshes m, r))" for r
    using read_submeshes_run_bytes [OF n assms(2), of r "[]"]
    by (simp add: unat_of_nat_small [OF s])
  show ?thesis
    by (simp add: read_data_run_def cache_header_of_def assms(2) rv ri rs on_stream_def)
qed

lemma load_lightmap_cache_run_bytes:
  assumes "cache_representable m" and "\<And>r. grants a r"
  shows "load_lightmap_cache_run a m0 (Some (spec_cache_layout m h @ rest)) h =
    Returns (Inr (),
      m0\<lparr> m_vertices := m_vertices m, m_indices := m_indices m,
          m_sub_meshes := m_sub_meshes m, m_lightmap_width := m_lightmap_width m,
          m_lightmap_height := m_lightmap_height m, m_has_lightmap_uvs := True \<rparr>)"
proof -
  have "spec_cache_layout m h @ rest = spec_header_layout (cache_header_of m h) @
      (concat (map Vertex_bytes (m_vertices m)) @ concat (map le32 (m_indices m)) @
       concat (map spec_submesh_layout (m_sub_meshes m)) @ rest)"
    by (simp add: spec_cache_layout_def)
  moreover have "h_magic (cache_header_of m h) = LIGHTMAP_CACHE_MAGIC"
    and "h_version (cache_header_of m h) = LIGHTMAP_CACHE_VERSION"
    and "h_stored_hash (cache_header_of m h) = h"
    and "h_lightmap_width (cache_header_of m h) = m_lightmap_width m"
    and "h_lightmap_height (cache_header_of m h) = m_lightmap_height m"
    by (simp_all add: cache_header_of_def)
  ultimately show ?thesis
    by (simp add: load_lightmap_cache_run_data read_data_run_bytes [OF assms])
qed

text \<open>
  Claim C4 on the code. The record of the triangle (387 bytes: header 36, vertices 288,
  indices 12, one submesh 51) loads when it is complete. Cut inside the vertex array
  (scenario C of the specification) or inside the index array, the two array reads fail,
  the submesh loop still runs, its read of \<open>name_len\<close> does nothing on the failed stream and
  \<open>std::string name(name_len, '\0')\<close> is built from the indeterminate \<open>name_len\<close>: undefined
  behaviour, where the specification has a failure that leaves the mesh as it was. A
  header that announces \<open>2^31 - 1\<close> vertices with nothing behind it makes
  \<open>std::vector<Vertex> vertices(vertex_count)\<close> throw \<open>std::bad_alloc\<close> before any data is
  read, on a machine that does not grant that many. Cut inside the header, or inside the
  last submesh record after its \<open>name_len\<close>, the function returns \<open>false\<close> with the mesh
  unchanged, as specified.
\<close>

theorem load_lightmap_cache_run_truncated:
  "load_lightmap_cache_run any_machine tri_mesh (Some (spec_cache_layout tri_mesh 5)) 5 =
     Returns (Inr (),
       tri_mesh\<lparr> m_vertices := m_vertices tri_mesh, m_indices := m_indices tri_mesh,
         m_sub_meshes := m_sub_meshes tri_mesh, m_lightmap_width := 0,
         m_lightmap_height := 0, m_has_lightmap_uvs := True \<rparr>) \<and>
   load_lightmap_cache_run any_machine tri_mesh
     (Some (take 100 (spec_cache_layout tri_mesh 5))) 5 = Undefined_behaviour \<and>
   load_lightmap_cache_run any_machine tri_mesh
     (Some (take 330 (spec_cache_layout tri_mesh 5))) 5 = Undefined_behaviour \<and>
   load_lightmap_cache_run small_machine tri_mesh
     (Some (spec_header_layout huge_header)) 5 = Throws_bad_alloc \<and>
   load_lightmap_cache_run any_machine tri_mesh
     (Some (take 35 (spec_cache_layout tri_mesh 5))) 5 = Returns (Inl ReadErrorHeader, tri_mesh) \<and>
   load_lightmap_cache_run any_machine tri_mesh
     (Some (take 386 (spec_cache_layout tri_mesh 5))) 5 = Returns (Inl ReadErrorData, tri_mesh)"
proof -
  have "load_lightmap_cache_run any_machine tri_mesh (Some (spec_cache_layout tri_mesh 5 @ [])) 5 =
     Returns (Inr (),
       tri_mesh\<lparr> m_vertices := m_vertices tri_mesh, m_indices := m_indices tri_mesh,
         m_sub_meshes := m_sub_meshes tri_mesh, m_lightmap_width := m_lightmap_width tri_mesh,
         m_lightmap_height := m_lightmap_height tri_mesh, m_has_lightmap_uvs := True \<rparr>)"
    by (rule load_lightmap_cache_run_bytes [OF cache_representable_tri_mesh grants_any_machine])
  then have "load_lightmap_cache_run any_machine tri_mesh (Some (spec_cache_layout tri_mesh 5)) 5 =
     Returns (Inr (),
       tri_mesh\<lparr> m_vertices := m_vertices tri_mesh, m_indices := m_indices tri_mesh,
         m_sub_meshes := m_sub_meshes tri_mesh, m_lightmap_width := 0,
         m_lightmap_height := 0, m_has_lightmap_uvs := True \<rparr>)"
    by (simp add: tri_mesh_def)
  then show ?thesis
    using run_cut_100 run_cut_330 run_huge_header run_cut_35 run_cut_386 by blast
qed

subsection \<open>The constructor on empty geometry\<close>




end
